theory Spec2Isabelle
  imports Main
begin

section \<open>JavaScript values and strings\<close>

text \<open>
  A JavaScript string is modelled as an Isabelle \<open>string\<close>: a list of 8-bit characters,
  read as the UTF-16 code units below 256 (ISO-8859-1). On that range the white space of
  \<open>\s\<close> and of \<open>String.prototype.trim\<close> is the set below, and \<open>toLowerCase\<close> maps a
  code unit to a code unit.
  A property read \<open>row['key']\<close> yields \<open>undefined\<close> or a string.
\<close>

datatype jsval = Undefined | Str string

datatype js_error = TypeError string

fun truthy :: "jsval \<Rightarrow> bool" where
  "truthy Undefined = False"
| "truthy (Str s) = (s \<noteq> [])"

text \<open>\<open>a || b\<close>: the left operand when it is truthy, the right one otherwise.\<close>

definition js_or :: "jsval \<Rightarrow> jsval \<Rightarrow> jsval" where
  "js_or a b = (if truthy a then a else b)"

text \<open>The string conversion of template literals and of \<open>RegExp.prototype.test\<close>.\<close>

fun ToString :: "jsval \<Rightarrow> string" where
  "ToString Undefined = ''undefined''"
| "ToString (Str s) = s"

definition whitespace :: "char \<Rightarrow> bool" where
  "whitespace c = (of_char c \<in> {9, 10, 11, 12, 13, 32, 160 :: nat})"

definition trim :: "string \<Rightarrow> string" where
  "trim s = rev (dropWhile whitespace (rev (dropWhile whitespace s)))"

definition toLowerCase_char :: "char \<Rightarrow> char" where
  "toLowerCase_char c =
     (let n = (of_char c :: nat)
      in if (65 \<le> n \<and> n \<le> 90) \<or> (192 \<le> n \<and> n \<le> 222 \<and> n \<noteq> 215)
         then char_of (n + 32) else c)"

definition toLowerCase :: "string \<Rightarrow> string" where
  "toLowerCase s = map toLowerCase_char s"

text \<open>A method call on \<open>undefined\<close> throws a TypeError.\<close>

fun trim_method :: "jsval \<Rightarrow> js_error + string" where
  "trim_method Undefined = Inl (TypeError ''Cannot read properties of undefined (reading 'trim')'')"
| "trim_method (Str s) = Inr (trim s)"

section \<open>Regular expressions\<close>

text \<open>
  The only regular expression of the program is
  \<^verbatim>\<open>/^[^\s@]+@[^\s@]+\.[^\s@]+$/\<close>: anchored at both ends, a sequence of literal
  characters and of character classes under \<open>+\<close>. \<open>regex_test\<close> is the backtracking
  match of such a sequence against the whole string.
\<close>

datatype atom = Lit char | Plus "char \<Rightarrow> bool"

fun regex_test :: "atom list \<Rightarrow> string \<Rightarrow> bool" where
  "regex_test [] s = (s = [])"
| "regex_test (Lit c # r) [] = False"
| "regex_test (Lit c # r) (x # xs) = (x = c \<and> regex_test r xs)"
| "regex_test (Plus P # r) [] = False"
| "regex_test (Plus P # r) (x # xs) = (P x \<and> (regex_test (Plus P # r) xs \<or> regex_test r xs))"

definition notSpaceAt :: "char \<Rightarrow> bool" where
  "notSpaceAt c = (\<not> whitespace c \<and> c \<noteq> CHR ''@'')"

definition emailRegex :: "atom list" where
  "emailRegex = [Plus notSpaceAt, Lit (CHR ''@''), Plus notSpaceAt, Lit (CHR ''.''), Plus notSpaceAt]"

section \<open>Row validator\<close>

text \<open>
  A row of csv-parser is an object whose own properties are the header names, with string
  values; it is modelled as an association list with one pair for each property, read by
  \<open>get\<close>.
\<close>

type_synonym row = "(string \<times> string) list"

definition get :: "row \<Rightarrow> string \<Rightarrow> jsval" where
  "get row k = (case map_of row k of None \<Rightarrow> Undefined | Some v \<Rightarrow> Str v)"

record student =
  studentName :: string
  email :: string
  programName :: string

datatype validation = Invalid string | Valid student

text \<open>The three \<open>const\<close> declarations at the head of \<open>validateCsvRow\<close>.\<close>

definition resolveName :: "row \<Rightarrow> jsval" where
  "resolveName row =
     js_or (js_or (js_or (get row ''Name'') (get row ''name'')) (get row ''Student Name''))
       (get row ''student_name'')"

definition resolveEmail :: "row \<Rightarrow> jsval" where
  "resolveEmail row = js_or (get row ''Email'') (get row ''email'')"

definition resolveProgram :: "row \<Rightarrow> jsval" where
  "resolveProgram row =
     js_or (js_or (get row ''Program'') (get row ''program'')) (Str ''General Program'')"

text \<open>
  \<open>validateCsvRow\<close>: \<open>Inl\<close> is an exception thrown by the function, \<open>Inr\<close> the object it
  returns (\<open>{valid: false, error}\<close> or \<open>{valid: true, data}\<close>).
\<close>

definition validateCsvRow :: "row \<Rightarrow> js_error + validation" where
  "validateCsvRow row =
     (let name = resolveName row; mail = resolveEmail row; program = resolveProgram row
      in if \<not> truthy name \<or> \<not> truthy mail
         then Inr (Invalid ''Missing required fields: Name and Email'')
         else if \<not> regex_test emailRegex (ToString mail)
         then Inr (Invalid (''Invalid email format: '' @ ToString mail))
         else (case trim_method name of Inl ex \<Rightarrow> Inl ex | Inr n \<Rightarrow>
              (case trim_method mail of Inl ex \<Rightarrow> Inl ex | Inr e \<Rightarrow>
              (case trim_method program of Inl ex \<Rightarrow> Inl ex | Inr p \<Rightarrow>
                 Inr (Valid \<lparr>studentName = n, email = toLowerCase e, programName = p\<rparr>)))))"

text \<open>
  The claims about the validator are compared with definitions that follow the
  specification's words: the first non-empty value among a list of column names, the
  two-part shape of an address (a local part, \<open>@\<close>, and a domain with a dot), what it is
  for a string to be another one trimmed (white space removed at both ends and nowhere
  else), and what it is to be another one in lower case (every upper-case letter replaced
  by its lower-case letter, read from the table of the letters, everything else kept).
\<close>

definition firstNonEmpty :: "string list \<Rightarrow> row \<Rightarrow> string option" where
  "firstNonEmpty keys row =
     map_option (\<lambda>k. ToString (get row k)) (find (\<lambda>k. truthy (get row k)) keys)"

definition two_part_shape :: "string \<Rightarrow> bool" where
  "two_part_shape e =
     (\<exists>local domain tld. e = local @ ''@'' @ domain @ ''.'' @ tld \<and>
        local \<noteq> [] \<and> domain \<noteq> [] \<and> tld \<noteq> [] \<and>
        (\<forall>c \<in> set (local @ domain @ tld). \<not> whitespace c \<and> c \<noteq> CHR ''@''))"

definition trimmed_of :: "string \<Rightarrow> string \<Rightarrow> bool" where
  "trimmed_of s t =
     (\<exists>before after. s = before @ t @ after \<and>
        (\<forall>c \<in> set before. whitespace c) \<and> (\<forall>c \<in> set after. whitespace c) \<and>
        (t = [] \<or> (\<not> whitespace (hd t) \<and> \<not> whitespace (last t))))"

definition upper_case_letters :: string where
  "upper_case_letters = ''ABCDEFGHIJKLMNOPQRSTUVWXYZ'' @
     [CHR 0xC0, CHR 0xC1, CHR 0xC2, CHR 0xC3, CHR 0xC4, CHR 0xC5, CHR 0xC6, CHR 0xC7,
      CHR 0xC8, CHR 0xC9, CHR 0xCA, CHR 0xCB, CHR 0xCC, CHR 0xCD, CHR 0xCE, CHR 0xCF,
      CHR 0xD0, CHR 0xD1, CHR 0xD2, CHR 0xD3, CHR 0xD4, CHR 0xD5, CHR 0xD6,
      CHR 0xD8, CHR 0xD9, CHR 0xDA, CHR 0xDB, CHR 0xDC, CHR 0xDD, CHR 0xDE]"

definition lower_case_letters :: string where
  "lower_case_letters = ''abcdefghijklmnopqrstuvwxyz'' @
     [CHR 0xE0, CHR 0xE1, CHR 0xE2, CHR 0xE3, CHR 0xE4, CHR 0xE5, CHR 0xE6, CHR 0xE7,
      CHR 0xE8, CHR 0xE9, CHR 0xEA, CHR 0xEB, CHR 0xEC, CHR 0xED, CHR 0xEE, CHR 0xEF,
      CHR 0xF0, CHR 0xF1, CHR 0xF2, CHR 0xF3, CHR 0xF4, CHR 0xF5, CHR 0xF6,
      CHR 0xF8, CHR 0xF9, CHR 0xFA, CHR 0xFB, CHR 0xFC, CHR 0xFD, CHR 0xFE]"

definition lower_case_letter :: "char \<Rightarrow> char" where
  "lower_case_letter c =
     (case map_of (zip upper_case_letters lower_case_letters) c of Some l \<Rightarrow> l | None \<Rightarrow> c)"

definition lower_cased_of :: "string \<Rightarrow> string \<Rightarrow> bool" where
  "lower_cased_of s t =
     (length t = length s \<and> (\<forall>k < length s. t ! k = lower_case_letter (s ! k)))"

text \<open>The column names that \<open>validateCsvRow\<close> reads.\<close>

definition csvColumns :: "string list" where
  "csvColumns = [''Name'', ''name'', ''Student Name'', ''student_name'', ''Email'', ''email'',
     ''Program'', ''program'']"

section \<open>Collaborators\<close>

text \<open>
  A promise of a collaborator either settles, after a number of milliseconds, with a
  rejection (\<open>Inl\<close>, the message of the error) or a value (\<open>Inr\<close>), or stays pending.
  \<open>raceTimeout p ms msg\<close> is
  \<^verbatim>\<open>Promise.race([p, new Promise((_, reject) => setTimeout(() => reject(new Error(msg)), ms))])\<close>.
  The promise \<open>p\<close> is created before the timer, so it wins when it settles no later than
  the timer fires; otherwise the race is rejected with the message of the timer. \<open>await\<close>
  of a promise alone does not return while the promise is pending.
\<close>

datatype 'a promise = Settled nat "string + 'a" | Pending

definition raceTimeout :: "'a promise \<Rightarrow> nat \<Rightarrow> string \<Rightarrow> nat \<times> (string + 'a)" where
  "raceTimeout p ms msg =
     (case p of
        Settled t r \<Rightarrow> if t \<le> ms then (t, r) else (ms, Inl msg)
      | Pending \<Rightarrow> (ms, Inl msg))"

definition await :: "'a promise \<Rightarrow> (nat \<times> (string + 'a)) option" where
  "await p = (case p of Settled t r \<Rightarrow> Some (t, r) | Pending \<Rightarrow> None)"

record storage_error =
  message :: jsval
  statusCode :: jsval

datatype upload_result = UploadThrew string | UploadReturned "storage_error option"

record mailOptions =
  mail_from :: string
  mail_to :: string
  mail_studentName :: string
  mail_verificationUrl :: string

text \<open>
  The document that the loop builds with \<open>new Certificate({...})\<close>, with the fields it
  gives; \<open>createdAt\<close>, which the schema fills by default, is left out.
\<close>

record certificate =
  certificateId :: string
  cert_studentName :: string
  cert_email :: string
  cert_programName :: string
  certificateUrl :: string
  certificateFileType :: string
  certificateImageUrl :: string
  dateOfIssue :: nat

text \<open>
  The environment of the server: what the libraries and services answer. The first
  argument of each answer is the number of the pass of the processing loop (the number of
  identifiers generated before it), so that a collaborator may answer differently at each
  call. \<open>pdfDocument\<close> is the outcome of the drawing in \<open>generateCertificate\<close> (the bytes of
  the document, or the message of the error), \<open>storageUpload\<close> and \<open>getPublicUrl\<close> are the
  storage client, \<open>certificateSave\<close> is what \<open>certificate.save()\<close> answers apart from the
  unique index (\<open>None\<close> when the document is accepted, the message of the rejection
  otherwise), \<open>duplicateKey\<close> is the message of the driver when the unique index refuses
  a document, and \<open>sendMail\<close> is the mail transport.
  The drawing, the storage client and the collection are taken to settle, with a value or
  an error; the mail transport may also stay pending, which is the case the timer of
  \<open>sendCertificateEmail\<close> is there for.
\<close>

record env =
  uuidv4 :: "nat \<Rightarrow> string"
  newDate :: "nat \<Rightarrow> nat"
  pdfDocument :: "nat \<Rightarrow> string \<Rightarrow> string \<Rightarrow> string \<Rightarrow> nat \<Rightarrow> string + string"
  storageUpload :: "nat \<Rightarrow> string \<Rightarrow> string \<Rightarrow> upload_result"
  getPublicUrl :: "string \<Rightarrow> string"
  certificateSave :: "nat \<Rightarrow> certificate \<Rightarrow> string option"
  duplicateKey :: "nat \<Rightarrow> certificate \<Rightarrow> string"
  sendMail :: "nat \<Rightarrow> mailOptions \<Rightarrow> string promise"
  EMAIL_USER :: string
  SUPABASE_URL :: string

text \<open>
  The state outside the request: the number of identifiers generated, the identifiers a
  certificate was rendered for, the objects uploaded to the bucket, the documents of the
  collection, and the messages handed to the mail transport.
\<close>

record world =
  ticks :: nat
  rendered :: "string list"
  bucket :: "(string \<times> string) list"
  db :: "certificate list"
  outbox :: "mailOptions list"

fun includes_str :: "string \<Rightarrow> string \<Rightarrow> bool" where
  "includes_str [] t = (t = [])"
| "includes_str (x # xs) t = (take (length t) (x # xs) = t \<or> includes_str xs t)"

definition endsWith :: "string \<Rightarrow> string \<Rightarrow> bool" where
  "endsWith s t = (length t \<le> length s \<and> drop (length s - length t) s = t)"

text \<open>
  \<open>generateCertificate\<close>: the promise of the function is the promise of the drawing, whose
  rejection is not caught by the \<open>try\<close> around \<open>return new Promise(...)\<close>. The layout of
  the page is not modelled.
\<close>

definition generateCertificate ::
  "env \<Rightarrow> nat \<Rightarrow> world \<Rightarrow> string \<Rightarrow> string \<Rightarrow> string \<Rightarrow> nat \<Rightarrow> world \<times> (string + string)" where
  "generateCertificate env i w name cid program date =
     (w\<lparr>rendered := rendered w @ [cid]\<rparr>, pdfDocument env i name cid program date)"

definition uploadToSupabase ::
  "env \<Rightarrow> nat \<Rightarrow> world \<Rightarrow> string \<Rightarrow> string \<Rightarrow> world \<times> (string + string)" where
  "uploadToSupabase env i w buffer cid =
     (let fileName = ''Mediseek/'' @ cid @ ''.pdf''
      in case storageUpload env i fileName buffer of
           UploadThrew msg \<Rightarrow> (w, Inl msg)
         | UploadReturned (Some err) \<Rightarrow>
             if truthy (message err) \<and> includes_str (ToString (message err)) ''ENOTFOUND''
             then (w, Inl (''DNS resolution failed. Cannot reach Supabase at '' @ SUPABASE_URL env
                    @ ''. Please verify:'' @ [CHR 0x0A]
                    @ ''   1. The Supabase project exists and is active'' @ [CHR 0x0A]
                    @ ''   2. The URL is correct (check Supabase dashboard)'' @ [CHR 0x0A]
                    @ ''   3. Your internet connection is working''))
             else if truthy (message err) \<and>
                     (includes_str (ToString (message err)) ''row-level security policy'' \<or>
                      statusCode err = Str ''403'')
             then (w, Inl (''Row Level Security (RLS) Policy Error. Even though your bucket is set to ''
                    @ [CHR 0x22] @ ''public'' @ [CHR 0x22]
                    @ '', you still need RLS policies for UPLOADS (INSERT operations). ''
                    @ ''Add SUPABASE_SERVICE_ROLE_KEY to your .env file or configure RLS policies ''
                    @ ''in Supabase Dashboard.''))
             else (w, Inl (''Failed to upload certificate: '' @ ToString (message err)))
         | UploadReturned None \<Rightarrow>
             (w\<lparr>bucket := bucket w @ [(fileName, buffer)]\<rparr>, Inr (getPublicUrl env fileName)))"

text \<open>
  \<open>await certificate.save()\<close>. The schema declares \<open>certificateId\<close> with \<open>unique: true\<close>:
  the collection refuses a document whose identifier one of its documents already has.
\<close>

definition save :: "env \<Rightarrow> nat \<Rightarrow> world \<Rightarrow> certificate \<Rightarrow> world \<times> (string + unit)" where
  "save env i w certificate =
     (case certificateSave env i certificate of
        Some msg \<Rightarrow> (w, Inl msg)
      | None \<Rightarrow>
          if certificateId certificate \<in> set (map certificateId (db w))
          then (w, Inl (duplicateKey env i certificate))
          else (w\<lparr>db := db w @ [certificate]\<rparr>, Inr ()))"

text \<open>
  \<open>sendCertificateEmail\<close> of \<open>src/index.js\<close>: the result is the state, the milliseconds
  until the function settles, and its outcome. The subject and the HTML of the message
  are fixed texts around the name and the link, which is what \<open>mailOptions\<close> keeps.
\<close>

definition sendCertificateEmail ::
  "env \<Rightarrow> nat \<Rightarrow> world \<Rightarrow> string \<Rightarrow> string \<Rightarrow> string \<Rightarrow> world \<times> nat \<times> (string + unit)" where
  "sendCertificateEmail env i w address name cid =
     (let verificationUrl = ''https://upgradtask-frontend.vercel.app/certificate/'' @ cid;
          options = \<lparr>mail_from = EMAIL_USER env, mail_to = address, mail_studentName = name,
                      mail_verificationUrl = verificationUrl\<rparr>;
          w' = w\<lparr>outbox := outbox w @ [options]\<rparr>
      in case raceTimeout (sendMail env i options) 15000 ''Email send timeout'' of
           (t, Inl msg) \<Rightarrow> (w', t, Inl msg)
         | (t, Inr info) \<Rightarrow> (w', t, Inr ()))"

text \<open>
  \<open>sendCertificateEmail\<close> of \<open>src/unnamed/part_000\<close>, which awaits
  \<open>transporter.sendMail(mailOptions)\<close> alone: \<open>None\<close> when the function never settles.
\<close>

definition sendCertificateEmail_part_000 ::
  "env \<Rightarrow> nat \<Rightarrow> world \<Rightarrow> string \<Rightarrow> string \<Rightarrow> string \<Rightarrow> (world \<times> nat \<times> (string + unit)) option" where
  "sendCertificateEmail_part_000 env i w address name cid =
     (let verificationUrl = ''https://upgradtask-frontend.vercel.app/certificate/'' @ cid;
          options = \<lparr>mail_from = EMAIL_USER env, mail_to = address, mail_studentName = name,
                      mail_verificationUrl = verificationUrl\<rparr>;
          w' = w\<lparr>outbox := outbox w @ [options]\<rparr>
      in case await (sendMail env i options) of
           None \<Rightarrow> None
         | Some (t, Inl msg) \<Rightarrow> Some (w', t, Inl msg)
         | Some (t, Inr info) \<Rightarrow> Some (w', t, Inr ()))"

section \<open>Bulk upload\<close>

record processedCertificate =
  p_studentName :: string
  p_email :: string
  p_certificateId :: string
  p_status :: string
  p_certificateUrl :: string

record failedCertificate =
  f_studentName :: string
  f_email :: string
  f_status :: string
  f_error :: string

record csvError =
  e_row :: row
  e_error :: string

text \<open>
  The body of the \<open>try\<close> block of the processing loop, for one student: \<open>Inl\<close> is the
  message of the error thrown, \<open>Inr\<close> the entry pushed to \<open>processedCertificates\<close>.
\<close>

definition tryBlock :: "env \<Rightarrow> world \<Rightarrow> student \<Rightarrow> world \<times> (string + processedCertificate)" where
  "tryBlock env w s =
     (let i = ticks w;
          cid = ''cert_'' @ uuidv4 env i;
          date = newDate env i;
          w0 = w\<lparr>ticks := Suc i\<rparr>
      in case generateCertificate env i w0 (studentName s) cid (programName s) date of
           (w1, Inl msg) \<Rightarrow> (w1, Inl msg)
         | (w1, Inr pdfBuffer) \<Rightarrow>
      (case uploadToSupabase env i w1 pdfBuffer cid of
           (w2, Inl msg) \<Rightarrow> (w2, Inl msg)
         | (w2, Inr url) \<Rightarrow>
      (case save env i w2
              \<lparr>certificateId = cid, cert_studentName = studentName s, cert_email = email s,
               cert_programName = programName s, certificateUrl = url,
               certificateFileType = ''application/pdf'', certificateImageUrl = url,
               dateOfIssue = date\<rparr> of
           (w3, Inl msg) \<Rightarrow> (w3, Inl msg)
         | (w3, Inr _) \<Rightarrow>
      (case sendCertificateEmail env i w3 (email s) (studentName s) cid of
           (w4, t, Inl msg) \<Rightarrow> (w4, Inl msg)
         | (w4, t, Inr _) \<Rightarrow>
             (w4, Inr \<lparr>p_studentName = studentName s, p_email = email s, p_certificateId = cid,
                       p_status = ''Success'', p_certificateUrl = url\<rparr>)))))"

text \<open>One pass of the loop: the \<open>try\<close> block and its \<open>catch\<close>.\<close>

definition processStudent ::
  "env \<Rightarrow> world \<Rightarrow> student \<Rightarrow> world \<times> (failedCertificate + processedCertificate)" where
  "processStudent env w s =
     (case tryBlock env w s of
        (w', Inl msg) \<Rightarrow>
          (w', Inl \<lparr>f_studentName = studentName s, f_email = email s, f_status = ''Failed'',
                    f_error = msg\<rparr>)
      | (w', Inr p) \<Rightarrow> (w', Inr p))"

text \<open>\<open>for (const student of results)\<close>, with the two lists it pushes to.\<close>

fun processLoop ::
  "env \<Rightarrow> student list \<Rightarrow> world \<Rightarrow> processedCertificate list \<Rightarrow> failedCertificate list \<Rightarrow>
     world \<times> processedCertificate list \<times> failedCertificate list" where
  "processLoop env [] w ps fs = (w, ps, fs)"
| "processLoop env (s # rest) w ps fs =
     (case processStudent env w s of
        (w', Inr p) \<Rightarrow> processLoop env rest w' (ps @ [p]) fs
      | (w', Inl f) \<Rightarrow> processLoop env rest w' ps (fs @ [f]))"

text \<open>The \<open>data\<close> listener of the parser, over the rows it emits.\<close>

fun onData ::
  "row list \<Rightarrow> student list \<Rightarrow> csvError list \<Rightarrow> js_error + (student list \<times> csvError list)" where
  "onData [] results errors = Inr (results, errors)"
| "onData (r # rows) results errors =
     (case validateCsvRow r of
        Inl ex \<Rightarrow> Inl ex
      | Inr (Valid d) \<Rightarrow> onData rows (results @ [d]) errors
      | Inr (Invalid msg) \<Rightarrow> onData rows results (errors @ [\<lparr>e_row = r, e_error = msg\<rparr>]))"

text \<open>
  The request: the uploaded file, if any, with its name and what the parser emits for its
  buffer, the rows and then \<open>end\<close> or \<open>error\<close>.
\<close>

datatype csv_events = CsvEnd "row list" | CsvError "row list" string

record upload =
  originalname :: string
  csv :: csv_events

record summary =
  totalRecords :: nat
  successfullyProcessed :: nat
  summary_failed :: nat

record completed =
  summary :: summary
  processed :: "processedCertificate list"
  failed :: "failedCertificate list"
  csvValidationErrors :: "csvError list"

text \<open>
  The responses of the route: status 400 with an error and, for a file without a valid
  row, the validation errors; status 200 with the report; or an exception that escapes the
  \<open>data\<close> listener.
\<close>

datatype response =
    Status400 string "csvError list option"
  | Status200 completed
  | Uncaught js_error

definition upload_csv :: "env \<Rightarrow> world \<Rightarrow> upload option \<Rightarrow> world \<times> response" where
  "upload_csv env w req =
     (case req of
        None \<Rightarrow> (w, Status400 ''No file uploaded'' None)
      | Some f \<Rightarrow>
          if \<not> endsWith (originalname f) ''.csv''
          then (w, Status400 ''File must be a CSV file'' None)
          else (case csv f of
             CsvError rows msg \<Rightarrow>
               (case onData rows [] [] of
                  Inl ex \<Rightarrow> (w, Uncaught ex)
                | Inr _ \<Rightarrow> (w, Status400 (''CSV parsing failed: '' @ msg) None))
           | CsvEnd rows \<Rightarrow>
               (case onData rows [] [] of
                  Inl ex \<Rightarrow> (w, Uncaught ex)
                | Inr (results, errors) \<Rightarrow>
                    if length results = 0
                    then (w, Status400 ''No valid records found in CSV'' (Some errors))
                    else (case processLoop env results w [] [] of
                      (w', ps, fs) \<Rightarrow>
                        (w', Status200
                           \<lparr>summary = \<lparr>totalRecords = length results,
                                         successfullyProcessed = length ps,
                                         summary_failed = length fs\<rparr>,
                            processed = ps, failed = fs, csvValidationErrors = errors\<rparr>)))))"

section \<open>The words of the specification about a batch\<close>

text \<open>
  The valid recipients of a file and its invalid rows, in the order of the rows.
\<close>

fun validStudents :: "row list \<Rightarrow> student list" where
  "validStudents [] = []"
| "validStudents (r # rows) =
     (case validateCsvRow r of
        Inr (Valid d) \<Rightarrow> d # validStudents rows
      | _ \<Rightarrow> validStudents rows)"

fun invalidRows :: "row list \<Rightarrow> csvError list" where
  "invalidRows [] = []"
| "invalidRows (r # rows) =
     (case validateCsvRow r of
        Inr (Invalid msg) \<Rightarrow> \<lparr>e_row = r, e_error = msg\<rparr> # invalidRows rows
      | _ \<Rightarrow> invalidRows rows)"

text \<open>
  The classification of a row: invalid, with the validation error of that row; or
  succeeded or failed, with an entry for the recipient that the validator returns for
  that row. \<open>classifies\<close> relates a row to its class, and the three lists of a
  classification are its entries of each class, in order.
\<close>

datatype row_class =
    IsInvalid csvError
  | IsSucceeded processedCertificate
  | IsFailed failedCertificate

fun classifies :: "row \<Rightarrow> row_class \<Rightarrow> bool" where
  "classifies r (IsInvalid e) =
     (e_row e = r \<and> validateCsvRow r = Inr (Invalid (e_error e)))"
| "classifies r (IsSucceeded p) =
     (\<exists>d. validateCsvRow r = Inr (Valid d) \<and> p_studentName p = studentName d \<and>
        p_email p = email d)"
| "classifies r (IsFailed f) =
     (\<exists>d. validateCsvRow r = Inr (Valid d) \<and> f_studentName f = studentName d \<and>
        f_email f = email d)"

fun invalidOf :: "row_class list \<Rightarrow> csvError list" where
  "invalidOf [] = []"
| "invalidOf (IsInvalid e # cs) = e # invalidOf cs"
| "invalidOf (c # cs) = invalidOf cs"

fun succeededOf :: "row_class list \<Rightarrow> processedCertificate list" where
  "succeededOf [] = []"
| "succeededOf (IsSucceeded p # cs) = p # succeededOf cs"
| "succeededOf (c # cs) = succeededOf cs"

fun failedOf :: "row_class list \<Rightarrow> failedCertificate list" where
  "failedOf [] = []"
| "failedOf (IsFailed f # cs) = f # failedOf cs"
| "failedOf (c # cs) = failedOf cs"

text \<open>
  All the steps of the pass of a student succeed: the certificate is rendered, uploaded
  and saved, and the message is sent. \<open>allStepsSucceed\<close> says so of every student of a
  batch, each pass starting in the state that the pass before it leaves.
\<close>

definition passSucceeds :: "env \<Rightarrow> world \<Rightarrow> student \<Rightarrow> bool" where
  "passSucceeds env w s =
     (let i = ticks w;
          cid = ''cert_'' @ uuidv4 env i;
          date = newDate env i
      in case generateCertificate env i (w\<lparr>ticks := Suc i\<rparr>) (studentName s) cid
                (programName s) date of
           (w1, Inl msg) \<Rightarrow> False
         | (w1, Inr pdfBuffer) \<Rightarrow>
      (case uploadToSupabase env i w1 pdfBuffer cid of
           (w2, Inl msg) \<Rightarrow> False
         | (w2, Inr url) \<Rightarrow>
      (case save env i w2
              \<lparr>certificateId = cid, cert_studentName = studentName s, cert_email = email s,
               cert_programName = programName s, certificateUrl = url,
               certificateFileType = ''application/pdf'', certificateImageUrl = url,
               dateOfIssue = date\<rparr> of
           (w3, Inl msg) \<Rightarrow> False
         | (w3, Inr u) \<Rightarrow>
      (case sendCertificateEmail env i w3 (email s) (studentName s) cid of
           (w4, t, Inl msg) \<Rightarrow> False
         | (w4, t, Inr u') \<Rightarrow> True))))"

fun allStepsSucceed :: "env \<Rightarrow> world \<Rightarrow> student list \<Rightarrow> bool" where
  "allStepsSucceed env w [] = True"
| "allStepsSucceed env w (s # rest) =
     (passSucceeds env w s \<and> allStepsSucceed env (fst (processStudent env w s)) rest)"

section \<open>Example environments\<close>

text \<open>
  An environment in which every collaborator succeeds, the empty state, three students,
  and environments in which one collaborator fails: the bucket refuses the upload of one
  document under its access policy, the mail transport rejects every message, never
  answers, or answers after two minutes.
\<close>

definition example_env :: env where
  "example_env =
     \<lparr>uuidv4 = (\<lambda>i. replicate (Suc i) (CHR ''a'')),
      newDate = (\<lambda>i. 1000 + i),
      pdfDocument = (\<lambda>i name cid program date. Inr (''PDF '' @ name)),
      storageUpload = (\<lambda>i fileName buffer. UploadReturned None),
      getPublicUrl = (\<lambda>fileName. ''https://storage.example/'' @ fileName),
      certificateSave = (\<lambda>i certificate. None),
      duplicateKey = (\<lambda>i certificate. ''E11000 duplicate key error''),
      sendMail = (\<lambda>i options. Settled 200 (Inr ''250 OK'')),
      EMAIL_USER = ''admin@example.com'',
      SUPABASE_URL = ''https://project.supabase.co''\<rparr>"

definition example_world :: world where
  "example_world = \<lparr>ticks = 0, rendered = [], bucket = [], db = [], outbox = []\<rparr>"

definition ann :: student where
  "ann = \<lparr>studentName = ''Ann Lee'', email = ''ann@x.com'', programName = ''General Program''\<rparr>"

definition bo :: student where
  "bo = \<lparr>studentName = ''Bo'', email = ''bo@x.com'', programName = ''General Program''\<rparr>"

definition cy :: student where
  "cy = \<lparr>studentName = ''Cy'', email = ''cy@x.com'', programName = ''Data Science''\<rparr>"

definition upload_denied_env :: env where
  "upload_denied_env =
     example_env\<lparr>storageUpload := (\<lambda>i fileName buffer.
        if buffer = ''PDF Bo''
        then UploadReturned (Some \<lparr>message = Str ''new row violates row-level security policy'',
                                   statusCode = Str ''403''\<rparr>)
        else UploadReturned None)\<rparr>"

definition mail_rejected_env :: env where
  "mail_rejected_env = example_env\<lparr>sendMail := (\<lambda>i options. Settled 120 (Inl ''Invalid login''))\<rparr>"

definition mail_pending_env :: env where
  "mail_pending_env = example_env\<lparr>sendMail := (\<lambda>i options. Pending)\<rparr>"

definition mail_slow_env :: env where
  "mail_slow_env = example_env\<lparr>sendMail := (\<lambda>i options. Settled 120000 (Inl ''Connection timeout''))\<rparr>"

section \<open>Properties of the regular expression\<close>

lemma regex_test_Lit: "regex_test (Lit c # r) s \<longleftrightarrow> (\<exists>v. s = c # v \<and> regex_test r v)"
  by (cases s) auto

lemma regex_test_Plus:
  "regex_test (Plus P # r) s \<longleftrightarrow>
     (\<exists>u v. s = u @ v \<and> u \<noteq> [] \<and> (\<forall>c \<in> set u. P c) \<and> regex_test r v)"
proof (induction s)
  case Nil
  show ?case by simp
next
  case (Cons x xs)
  show ?case
  proof
    assume "regex_test (Plus P # r) (x # xs)"
    then have px: "P x" and alt: "regex_test (Plus P # r) xs \<or> regex_test r xs"
      by simp_all
    from alt show "\<exists>u v. x # xs = u @ v \<and> u \<noteq> [] \<and> (\<forall>c \<in> set u. P c) \<and> regex_test r v"
    proof
      assume "regex_test (Plus P # r) xs"
      with Cons.IH obtain u v where "xs = u @ v" "\<forall>c \<in> set u. P c" "regex_test r v"
        by blast
      with px have "x # xs = (x # u) @ v \<and> x # u \<noteq> [] \<and> (\<forall>c \<in> set (x # u). P c) \<and> regex_test r v"
        by simp
      then show ?thesis by blast
    next
      assume "regex_test r xs"
      with px have "x # xs = [x] @ xs \<and> [x] \<noteq> [] \<and> (\<forall>c \<in> set [x]. P c) \<and> regex_test r xs"
        by simp
      then show ?thesis by blast
    qed
  next
    assume "\<exists>u v. x # xs = u @ v \<and> u \<noteq> [] \<and> (\<forall>c \<in> set u. P c) \<and> regex_test r v"
    then obtain u v where uv: "x # xs = u @ v" "u \<noteq> []" "\<forall>c \<in> set u. P c" "regex_test r v"
      by blast
    then obtain u' where u: "u = x # u'" "xs = u' @ v"
      by (cases u) auto
    show "regex_test (Plus P # r) (x # xs)"
    proof (cases "u' = []")
      case True
      with u uv show ?thesis by simp
    next
      case False
      with u uv have "regex_test (Plus P # r) xs"
        using Cons.IH by auto
      with u uv show ?thesis by simp
    qed
  qed
qed

lemma regex_test_PlusI:
  assumes "u \<noteq> []" and "\<forall>c \<in> set u. P c" and "regex_test r v"
  shows "regex_test (Plus P # r) (u @ v)"
proof -
  from assms have "\<exists>u' v'. u @ v = u' @ v' \<and> u' \<noteq> [] \<and> (\<forall>c \<in> set u'. P c) \<and> regex_test r v'"
    by (intro exI [of _ u] exI [of _ v]) simp
  then show ?thesis by (rule regex_test_Plus [THEN iffD2])
qed

lemma regex_test_Plus_end: "regex_test [Plus P] s \<longleftrightarrow> s \<noteq> [] \<and> (\<forall>c \<in> set s. P c)"
  by (auto simp: regex_test_Plus)

text \<open>
  The expression of \<open>validateCsvRow\<close> accepts exactly the strings of the two-part shape.
\<close>

lemma emailRegex_shape: "regex_test emailRegex e \<longleftrightarrow> two_part_shape e"
proof
  assume "regex_test emailRegex e"
  then have "regex_test (Plus notSpaceAt # [Lit (CHR ''@''), Plus notSpaceAt, Lit (CHR ''.''), Plus notSpaceAt]) e"
    by (simp only: emailRegex_def)
  then obtain l v1 where l: "e = l @ v1" "l \<noteq> []" "\<forall>c \<in> set l. notSpaceAt c"
      and r1: "regex_test (Lit (CHR ''@'') # [Plus notSpaceAt, Lit (CHR ''.''), Plus notSpaceAt]) v1"
    using regex_test_Plus [THEN iffD1] by blast
  from r1 obtain v2 where v2: "v1 = CHR ''@'' # v2"
      and r2: "regex_test (Plus notSpaceAt # [Lit (CHR ''.''), Plus notSpaceAt]) v2"
    using regex_test_Lit [THEN iffD1] by blast
  from r2 obtain d v3 where d: "v2 = d @ v3" "d \<noteq> []" "\<forall>c \<in> set d. notSpaceAt c"
      and r3: "regex_test (Lit (CHR ''.'') # [Plus notSpaceAt]) v3"
    using regex_test_Plus [THEN iffD1] by blast
  from r3 obtain t where t: "v3 = CHR ''.'' # t" and r4: "regex_test [Plus notSpaceAt] t"
    using regex_test_Lit [THEN iffD1] by blast
  from r4 have "t \<noteq> [] \<and> (\<forall>c \<in> set t. notSpaceAt c)"
    by (rule regex_test_Plus_end [THEN iffD1])
  then have t': "t \<noteq> []" "\<forall>c \<in> set t. notSpaceAt c"
    by blast+
  have "e = l @ ''@'' @ d @ ''.'' @ t"
    using l(1) v2 d(1) t by simp
  moreover have "\<forall>c \<in> set (l @ d @ t). \<not> whitespace c \<and> c \<noteq> CHR ''@''"
    using l(3) d(3) t'(2) by (auto simp: notSpaceAt_def)
  ultimately show "two_part_shape e"
    unfolding two_part_shape_def using l(2) d(2) t'(1) by blast
next
  assume "two_part_shape e"
  then have "\<exists>l d t. e = l @ ''@'' @ d @ ''.'' @ t \<and> l \<noteq> [] \<and> d \<noteq> [] \<and> t \<noteq> [] \<and>
      (\<forall>c \<in> set (l @ d @ t). \<not> whitespace c \<and> c \<noteq> CHR ''@'')"
    by (simp only: two_part_shape_def)
  then obtain l d t where all: "e = l @ ''@'' @ d @ ''.'' @ t \<and> l \<noteq> [] \<and> d \<noteq> [] \<and> t \<noteq> [] \<and>
      (\<forall>c \<in> set (l @ d @ t). \<not> whitespace c \<and> c \<noteq> CHR ''@'')"
    by (elim exE)
  then have e: "e = l @ ''@'' @ d @ ''.'' @ t"
      and ne: "l \<noteq> []" "d \<noteq> []" "t \<noteq> []"
      and cs: "\<forall>c \<in> set (l @ d @ t). \<not> whitespace c \<and> c \<noteq> CHR ''@''"
    by blast+
  from cs have pl: "\<forall>c \<in> set l. notSpaceAt c" and pd: "\<forall>c \<in> set d. notSpaceAt c"
      and pt: "\<forall>c \<in> set t. notSpaceAt c"
    by (auto simp: notSpaceAt_def)
  from ne(3) pt have "t \<noteq> [] \<and> (\<forall>c \<in> set t. notSpaceAt c)"
    by blast
  then have r4: "regex_test [Plus notSpaceAt] t"
    by (rule regex_test_Plus_end [THEN iffD2])
  then have r3: "regex_test (Lit (CHR ''.'') # [Plus notSpaceAt]) (CHR ''.'' # t)"
    by simp
  have r2: "regex_test (Plus notSpaceAt # [Lit (CHR ''.''), Plus notSpaceAt]) (d @ CHR ''.'' # t)"
    using ne(2) pd r3 by (rule regex_test_PlusI)
  then have r1: "regex_test (Lit (CHR ''@'') # [Plus notSpaceAt, Lit (CHR ''.''), Plus notSpaceAt])
      (CHR ''@'' # d @ CHR ''.'' # t)"
    by simp
  have "regex_test (Plus notSpaceAt # [Lit (CHR ''@''), Plus notSpaceAt, Lit (CHR ''.''), Plus notSpaceAt])
      (l @ CHR ''@'' # d @ CHR ''.'' # t)"
    using ne(1) pl r1 by (rule regex_test_PlusI)
  then show "regex_test emailRegex e"
    by (simp add: emailRegex_def e)
qed

section \<open>Properties of the row validator\<close>

lemma truthy_Str: "truthy v \<Longrightarrow> \<exists>s. v = Str s \<and> s \<noteq> []"
  by (cases v) simp_all

lemma truthy_ToString: "truthy v \<Longrightarrow> v = Str (ToString v) \<and> ToString v \<noteq> []"
  by (cases v) simp_all

lemma truthy_resolveProgram: "truthy (resolveProgram row)"
  by (simp add: resolveProgram_def js_or_def)

text \<open>
  \<open>validateCsvRow\<close> never throws: its result is one of the two objects, decided by the
  three resolved values.
\<close>

lemma validateCsvRow_cases:
  "validateCsvRow row =
     Inr (if \<not> truthy (resolveName row) \<or> \<not> truthy (resolveEmail row)
          then Invalid ''Missing required fields: Name and Email''
          else if \<not> regex_test emailRegex (ToString (resolveEmail row))
          then Invalid (''Invalid email format: '' @ ToString (resolveEmail row))
          else Valid \<lparr>studentName = trim (ToString (resolveName row)),
                 email = toLowerCase (trim (ToString (resolveEmail row))),
                 programName = trim (ToString (resolveProgram row))\<rparr>)"
proof (cases "truthy (resolveName row)")
  case False
  then show ?thesis by (simp add: validateCsvRow_def)
next
  case name: True
  show ?thesis
  proof (cases "truthy (resolveEmail row)")
    case False
    then show ?thesis by (simp add: validateCsvRow_def)
  next
    case mail: True
    from truthy_Str [OF name] obtain n where n: "resolveName row = Str n \<and> n \<noteq> []"
      by (elim exE)
    from truthy_Str [OF mail] obtain e where e: "resolveEmail row = Str e \<and> e \<noteq> []"
      by (elim exE)
    from truthy_Str [OF truthy_resolveProgram [of row]] obtain p
      where p: "resolveProgram row = Str p \<and> p \<noteq> []"
      by (elim exE)
    from n e p show ?thesis by (simp add: validateCsvRow_def)
  qed
qed

lemma firstNonEmpty_Cons:
  "firstNonEmpty (k # ks) row =
     (if truthy (get row k) then Some (ToString (get row k)) else firstNonEmpty ks row)"
  by (simp add: firstNonEmpty_def)

lemma firstNonEmpty_Nil: "firstNonEmpty [] row = None"
  by (simp add: firstNonEmpty_def)

lemma resolveProgram_first:
  "resolveProgram row =
     Str (case firstNonEmpty [''Program'', ''program''] row of Some p \<Rightarrow> p | None \<Rightarrow> ''General Program'')"
  using truthy_ToString [of "get row ''Program''"] truthy_ToString [of "get row ''program''"]
  by (simp add: resolveProgram_def js_or_def firstNonEmpty_Cons firstNonEmpty_Nil)

lemma resolve_first:
  "truthy (resolveName row) \<longleftrightarrow> firstNonEmpty [''Name'', ''name'', ''Student Name'', ''student_name''] row \<noteq> None"
  "truthy (resolveName row) \<Longrightarrow>
     firstNonEmpty [''Name'', ''name'', ''Student Name'', ''student_name''] row = Some (ToString (resolveName row))"
  "truthy (resolveEmail row) \<longleftrightarrow> firstNonEmpty [''Email'', ''email''] row \<noteq> None"
  "truthy (resolveEmail row) \<Longrightarrow> firstNonEmpty [''Email'', ''email''] row = Some (ToString (resolveEmail row))"
  by (simp_all add: resolveName_def resolveEmail_def js_or_def firstNonEmpty_Cons firstNonEmpty_Nil
      split: if_splits)

lemma resolve_cong:
  assumes "\<forall>k \<in> set csvColumns. get row' k = get row k"
  shows "resolveName row' = resolveName row" and "resolveEmail row' = resolveEmail row"
    and "resolveProgram row' = resolveProgram row"
  using assms by (simp_all add: csvColumns_def resolveName_def resolveEmail_def resolveProgram_def)

text \<open>
  C4, as the code has it. The validator resolves the name as the first non-empty value
  among the columns named exactly \<open>Name\<close>, \<open>name\<close>, \<open>Student Name\<close>, \<open>student_name\<close>, in
  that order, the address among \<open>Email\<close>, \<open>email\<close>, and the program among \<open>Program\<close>,
  \<open>program\<close>, with \<open>General Program\<close> when both are absent or empty. The names are
  compared as they are written: no other spelling or case of a header is recognised.
\<close>

theorem validateCsvRow_resolution:
  "validateCsvRow row =
     (case firstNonEmpty [''Name'', ''name'', ''Student Name'', ''student_name''] row of
        None \<Rightarrow> Inr (Invalid ''Missing required fields: Name and Email'')
      | Some n \<Rightarrow>
     (case firstNonEmpty [''Email'', ''email''] row of
        None \<Rightarrow> Inr (Invalid ''Missing required fields: Name and Email'')
      | Some e \<Rightarrow>
          if regex_test emailRegex e
          then Inr (Valid \<lparr>studentName = trim n, email = toLowerCase (trim e),
                 programName = trim (case firstNonEmpty [''Program'', ''program''] row of
                                       Some p \<Rightarrow> p | None \<Rightarrow> ''General Program'')\<rparr>)
          else Inr (Invalid (''Invalid email format: '' @ e))))"
proof (cases "truthy (resolveName row)")
  case False
  then show ?thesis
    using resolve_first(1) [of row] by (simp add: validateCsvRow_cases)
next
  case name: True
  show ?thesis
  proof (cases "truthy (resolveEmail row)")
    case False
    then show ?thesis
      using resolve_first(3) [of row] resolve_first(2) [OF name]
      by (simp add: validateCsvRow_cases)
  next
    case mail: True
    show ?thesis
      using name mail resolve_first(2) [OF name] resolve_first(4) [OF mail]
      by (simp add: validateCsvRow_cases resolveProgram_first)
  qed
qed

text \<open>
  An instance of the resolution: lower-case headers, an empty \<open>Email\<close> column passed over
  for \<open>email\<close>, and a program given.
\<close>

theorem validateCsvRow_resolution_witness:
  "validateCsvRow [(''name'', '' Ann Lee ''), (''Email'', ''''), (''email'', ''Ann@X.com''),
       (''program'', ''Data Science'')] =
     Inr (Valid \<lparr>studentName = ''Ann Lee'', email = ''ann@x.com'', programName = ''Data Science''\<rparr>)"
proof -
  let ?row = "[(''name'', '' Ann Lee ''), (''Email'', ''''), (''email'', ''Ann@X.com''),
       (''program'', ''Data Science'')]"
  have n: "firstNonEmpty [''Name'', ''name'', ''Student Name'', ''student_name''] ?row = Some '' Ann Lee ''"
    by code_simp
  have e: "firstNonEmpty [''Email'', ''email''] ?row = Some ''Ann@X.com''"
    by code_simp
  have p: "firstNonEmpty [''Program'', ''program''] ?row = Some ''Data Science''"
    by code_simp
  have r: "regex_test emailRegex ''Ann@X.com''"
    by code_simp
  have t: "trim '' Ann Lee '' = ''Ann Lee''" "toLowerCase (trim ''Ann@X.com'') = ''ann@x.com''"
      "trim ''Data Science'' = ''Data Science''"
    by code_simp+
  show ?thesis
    using validateCsvRow_resolution [of ?row] by (simp only: n e p r t option.case if_True)
qed

text \<open>
  C4 as stated fails: a row whose headers are \<open>NAME\<close> and \<open>EMAIL\<close> resolves neither a
  name nor an address, and is rejected for missing fields.
\<close>

theorem validateCsvRow_uppercase_header_counterexample:
  "resolveName [(''NAME'', ''Ann Lee''), (''EMAIL'', ''ann@x.com'')] = Undefined \<and>
   resolveEmail [(''NAME'', ''Ann Lee''), (''EMAIL'', ''ann@x.com'')] = Undefined \<and>
   validateCsvRow [(''NAME'', ''Ann Lee''), (''EMAIL'', ''ann@x.com'')] =
     Inr (Invalid ''Missing required fields: Name and Email'')"
  by code_simp

lemma trim_no_whitespace:
  assumes "\<forall>c \<in> set s. \<not> whitespace c"
  shows "trim s = s"
proof -
  have "dropWhile whitespace s = s"
    using assms by (cases s) simp_all
  moreover have "dropWhile whitespace (rev s) = rev s"
    using assms by (cases "rev s") (simp, metis dropWhile.simps(2) list.set_intros(1) set_rev)
  ultimately show ?thesis
    by (simp add: trim_def)
qed

lemma two_part_shape_no_whitespace:
  assumes "two_part_shape e"
  shows "e \<noteq> [] \<and> (\<forall>c \<in> set e. \<not> whitespace c)"
proof -
  from assms have "\<exists>l d t. e = l @ ''@'' @ d @ ''.'' @ t \<and> l \<noteq> [] \<and> d \<noteq> [] \<and> t \<noteq> [] \<and>
      (\<forall>c \<in> set (l @ d @ t). \<not> whitespace c \<and> c \<noteq> CHR ''@'')"
    by (simp only: two_part_shape_def)
  then obtain l d t where all: "e = l @ ''@'' @ d @ ''.'' @ t \<and> l \<noteq> [] \<and> d \<noteq> [] \<and> t \<noteq> [] \<and>
      (\<forall>c \<in> set (l @ d @ t). \<not> whitespace c \<and> c \<noteq> CHR ''@'')"
    by (elim exE)
  have ws: "\<not> whitespace (CHR ''@'')" "\<not> whitespace (CHR ''.'')"
    by (simp_all add: whitespace_def)
  from all have e: "e = l @ ''@'' @ d @ ''.'' @ t" and l: "l \<noteq> []"
      and cs: "\<forall>c \<in> set (l @ d @ t). \<not> whitespace c"
    by blast+
  from e l have "e \<noteq> []"
    by simp
  moreover from cs ws have "\<forall>c \<in> set e. \<not> whitespace c"
    unfolding e by auto
  ultimately show ?thesis ..
qed

text \<open>
  What holds of an accepted row: the address returned is not empty, and is the resolved
  address in lower case, which has no white space to trim; the name resolved is not empty
  before it is trimmed.
\<close>

lemma validateCsvRow_valid_email:
  assumes "validateCsvRow row = Inr (Valid s)"
  shows "email s \<noteq> [] \<and> email s = toLowerCase (ToString (resolveEmail row)) \<and>
         ToString (resolveName row) \<noteq> [] \<and> studentName s = trim (ToString (resolveName row))"
proof -
  note v = validateCsvRow_cases [of row]
  from assms v have name: "truthy (resolveName row)" and mail: "truthy (resolveEmail row)"
      and re: "regex_test emailRegex (ToString (resolveEmail row))"
    by (auto split: if_splits)
  from assms v name mail re
  have s: "email s = toLowerCase (trim (ToString (resolveEmail row)))"
      "studentName s = trim (ToString (resolveName row))"
    by auto
  from re have "two_part_shape (ToString (resolveEmail row))"
    by (simp only: emailRegex_shape)
  from two_part_shape_no_whitespace [OF this]
  have ne: "ToString (resolveEmail row) \<noteq> []"
      and nw: "\<forall>c \<in> set (ToString (resolveEmail row)). \<not> whitespace c"
    by blast+
  from trim_no_whitespace [OF nw] s(1)
  have "email s = toLowerCase (ToString (resolveEmail row))"
    by simp
  moreover from this ne have "email s \<noteq> []"
    by (simp add: toLowerCase_def)
  moreover from truthy_ToString [OF name] have "ToString (resolveName row) \<noteq> []"
    by simp
  ultimately show ?thesis
    using s(2) by simp
qed

text \<open>
  C5. A name of white space only is truthy, so the check for missing fields passes, and
  the name returned, trimmed afterwards, is empty: validation succeeds with an empty name.
\<close>

theorem validateCsvRow_blank_name:
  "validateCsvRow [(''Name'', '' ''), (''Email'', ''a@b.co'')] =
     Inr (Valid \<lparr>studentName = [], email = ''a@b.co'', programName = ''General Program''\<rparr>)"
  by code_simp

text \<open>The accepted student of that row has the empty name.\<close>

theorem validateCsvRow_blank_name_witness:
  "\<exists>s. validateCsvRow [(''Name'', '' ''), (''Email'', ''a@b.co'')] = Inr (Valid s) \<and> studentName s = []"
  using validateCsvRow_blank_name by simp

lemma upper_case_codes:
  "map of_char upper_case_letters = ([65..<91] @ [192..<215] @ [216..<223] :: nat list)"
  by code_simp

lemma upper_case_table:
  "list_all (\<lambda>(u, l). toLowerCase_char u = l) (zip upper_case_letters lower_case_letters)"
  by code_simp

lemma upper_case_distinct: "distinct upper_case_letters"
  by code_simp

lemma letters_length: "length lower_case_letters = length upper_case_letters"
  by code_simp

text \<open>
  The operations of the code do what the specification's words say: \<open>toLowerCase\<close> maps
  each character as the table of the letters does, \<open>trim\<close> removes the white space at
  both ends and nothing else, and no other string is the lower-cased or the trimmed one.
\<close>

lemma toLowerCase_char_table: "toLowerCase_char c = lower_case_letter c"
proof (cases "c \<in> set upper_case_letters")
  case True
  then obtain k where k: "k < length upper_case_letters" "upper_case_letters ! k = c"
    by (auto simp: in_set_conv_nth)
  have "map_of (zip upper_case_letters lower_case_letters) (upper_case_letters ! k) =
      Some (lower_case_letters ! k)"
    using letters_length upper_case_distinct k(1) by (intro map_of_zip_nth) simp_all
  then have table: "lower_case_letter c = lower_case_letters ! k"
    using k(2) by (simp add: lower_case_letter_def)
  have "(upper_case_letters ! k, lower_case_letters ! k) \<in>
      set (zip upper_case_letters lower_case_letters)"
    using k(1) letters_length by (auto simp: set_zip)
  with upper_case_table have "toLowerCase_char (upper_case_letters ! k) = lower_case_letters ! k"
    by (auto simp: list_all_iff)
  with table k(2) show ?thesis
    by simp
next
  case False
  have "c \<notin> fst ` set (zip upper_case_letters lower_case_letters)"
  proof
    assume "c \<in> fst ` set (zip upper_case_letters lower_case_letters)"
    then have "c \<in> set upper_case_letters"
      by (auto dest: set_zip_leftD)
    with False show False ..
  qed
  then have "map_of (zip upper_case_letters lower_case_letters) c = None"
    by (rule map_of_eq_None_iff [THEN iffD2])
  then have table: "lower_case_letter c = c"
    by (simp add: lower_case_letter_def)
  have "of_char c \<notin> set ([65..<91] @ [192..<215] @ [216..<223] :: nat list)"
  proof
    assume "of_char c \<in> set ([65..<91] @ [192..<215] @ [216..<223] :: nat list)"
    then have "(of_char c :: nat) \<in> set (map of_char upper_case_letters)"
      by (simp only: upper_case_codes)
    then obtain u where "u \<in> set upper_case_letters" "(of_char u :: nat) = of_char c"
      by auto
    then have "c \<in> set upper_case_letters"
      by simp
    with False show False ..
  qed
  then have "\<not> ((65 \<le> (of_char c :: nat) \<and> (of_char c :: nat) \<le> 90) \<or>
      (192 \<le> (of_char c :: nat) \<and> (of_char c :: nat) \<le> 222 \<and> (of_char c :: nat) \<noteq> 215))"
    unfolding set_append set_upt Un_iff atLeastLessThan_iff by arith
  then have "toLowerCase_char c = c"
    by (auto simp: toLowerCase_char_def Let_def)
  with table show ?thesis
    by simp
qed

lemma toLowerCase_lower_cased: "lower_cased_of s (toLowerCase s)"
  by (simp add: lower_cased_of_def toLowerCase_def toLowerCase_char_table)

lemma lower_cased_of_unique: "lower_cased_of s t \<Longrightarrow> t = toLowerCase s"
  by (rule nth_equalityI)
    (simp_all add: lower_cased_of_def toLowerCase_def toLowerCase_char_table)

lemma trim_trimmed: "trimmed_of s (trim s)"
proof -
  let ?rest = "dropWhile whitespace s"
  let ?before = "takeWhile whitespace s"
  let ?after = "rev (takeWhile whitespace (rev ?rest))"
  have rest: "?rest = trim s @ ?after"
  proof -
    have "trim s @ ?after =
        rev (takeWhile whitespace (rev ?rest) @ dropWhile whitespace (rev ?rest))"
      unfolding trim_def by (simp only: rev_append)
    also have "\<dots> = rev (rev ?rest)"
      by (simp only: takeWhile_dropWhile_id)
    also have "\<dots> = ?rest"
      by (rule rev_rev_ident)
    finally show ?thesis
      by (rule sym)
  qed
  have "s = ?before @ ?rest"
    by simp
  with rest have split: "s = ?before @ trim s @ ?after"
    by simp
  have before: "\<forall>c \<in> set ?before. whitespace c"
    by (auto dest: set_takeWhileD)
  have after: "\<forall>c \<in> set ?after. whitespace c"
    by (auto dest: set_takeWhileD)
  have ends: "trim s = [] \<or> (\<not> whitespace (hd (trim s)) \<and> \<not> whitespace (last (trim s)))"
  proof (cases "trim s = []")
    case True
    then show ?thesis ..
  next
    case False
    have "?rest \<noteq> []"
    proof
      assume none: "?rest = []"
      have "trim s = []"
        unfolding trim_def none by simp
      with False show False ..
    qed
    then have "\<not> whitespace (hd ?rest)"
      by (rule hd_dropWhile)
    moreover from rest False have "hd ?rest = hd (trim s)"
      by (metis hd_append2)
    ultimately have first: "\<not> whitespace (hd (trim s))"
      by simp
    from False have "dropWhile whitespace (rev ?rest) \<noteq> []"
      by (simp add: trim_def)
    then have "\<not> whitespace (hd (dropWhile whitespace (rev ?rest)))"
      by (rule hd_dropWhile)
    moreover have "last (trim s) = hd (dropWhile whitespace (rev ?rest))"
      using False by (simp add: trim_def last_rev)
    ultimately have "\<not> whitespace (last (trim s))"
      by simp
    with first show ?thesis
      by simp
  qed
  from split before after ends show ?thesis
    unfolding trimmed_of_def by (intro exI [of _ ?before] exI [of _ ?after] conjI)
qed

lemma trimmed_of_unique:
  assumes "trimmed_of s t"
  shows "t = trim s"
proof -
  from assms obtain before after where s: "s = before @ t @ after"
      and before: "\<forall>c \<in> set before. whitespace c"
      and after: "\<forall>c \<in> set after. whitespace c"
      and ends: "t = [] \<or> (\<not> whitespace (hd t) \<and> \<not> whitespace (last t))"
    unfolding trimmed_of_def by (elim exE conjE)
  show ?thesis
  proof (cases "t = []")
    case True
    with s before after have "\<forall>c \<in> set s. whitespace c"
      by auto
    then have none: "dropWhile whitespace s = []"
      by (rule dropWhile_eq_Nil_conv [THEN iffD2])
    have "trim s = []"
      unfolding trim_def none by simp
    with True show ?thesis
      by simp
  next
    case False
    with ends have first: "\<not> whitespace (hd t)" and final: "\<not> whitespace (last t)"
      by simp_all
    from False obtain a t' where t: "t = a # t'"
      by (cases t) auto
    have "dropWhile whitespace s = dropWhile whitespace (t @ after)"
      unfolding s using before by (simp add: dropWhile_append2)
    also have "\<dots> = t @ after"
      using first t by simp
    finally have front: "dropWhile whitespace s = t @ after" .
    have "rev t \<noteq> []"
      using False by simp
    then obtain b u where u: "rev t = b # u"
      by (cases "rev t") auto
    with final False have "\<not> whitespace b"
      by (metis hd_rev list.sel(1))
    have "dropWhile whitespace (rev (t @ after)) = dropWhile whitespace (rev after @ rev t)"
      by simp
    also have "\<dots> = dropWhile whitespace (rev t)"
      by (rule dropWhile_append2) (use after in simp)
    also have "\<dots> = rev t"
      using u \<open>\<not> whitespace b\<close> by simp
    finally have "dropWhile whitespace (rev (t @ after)) = rev t" .
    with front show ?thesis
      by (simp add: trim_def)
  qed
qed

text \<open>
  C7. The validator applies its rules in order: it returns the missing-fields error when
  the name or the address resolves to an empty or absent value; otherwise the
  invalid-email error when the address is not of the two-part shape (a local part, \<open>@\<close>,
  and a domain with a dot, without white space or a second \<open>@\<close>); otherwise it succeeds,
  and the student returned has the resolved name trimmed, the resolved address trimmed and
  then in lower case, and the resolved program trimmed.
\<close>

theorem validateCsvRow_rules:
  "(\<not> truthy (resolveName row) \<or> \<not> truthy (resolveEmail row) \<longrightarrow>
      validateCsvRow row = Inr (Invalid ''Missing required fields: Name and Email'')) \<and>
   (truthy (resolveName row) \<and> truthy (resolveEmail row) \<and>
    \<not> two_part_shape (ToString (resolveEmail row)) \<longrightarrow>
      validateCsvRow row =
        Inr (Invalid (''Invalid email format: '' @ ToString (resolveEmail row)))) \<and>
   (truthy (resolveName row) \<and> truthy (resolveEmail row) \<and>
    two_part_shape (ToString (resolveEmail row)) \<longrightarrow>
      (\<exists>s t. validateCsvRow row = Inr (Valid s) \<and>
         trimmed_of (ToString (resolveName row)) (studentName s) \<and>
         trimmed_of (ToString (resolveEmail row)) t \<and> lower_cased_of t (email s) \<and>
         trimmed_of (ToString (resolveProgram row)) (programName s)))"
proof (intro conjI impI)
  assume "\<not> truthy (resolveName row) \<or> \<not> truthy (resolveEmail row)"
  then show "validateCsvRow row = Inr (Invalid ''Missing required fields: Name and Email'')"
    by (simp add: validateCsvRow_cases)
next
  assume "truthy (resolveName row) \<and> truthy (resolveEmail row) \<and>
      \<not> two_part_shape (ToString (resolveEmail row))"
  then show "validateCsvRow row =
      Inr (Invalid (''Invalid email format: '' @ ToString (resolveEmail row)))"
    by (simp add: validateCsvRow_cases emailRegex_shape)
next
  let ?s = "\<lparr>studentName = trim (ToString (resolveName row)),
      email = toLowerCase (trim (ToString (resolveEmail row))),
      programName = trim (ToString (resolveProgram row))\<rparr>"
  assume "truthy (resolveName row) \<and> truthy (resolveEmail row) \<and>
      two_part_shape (ToString (resolveEmail row))"
  then have "validateCsvRow row = Inr (Valid ?s)"
    by (simp add: validateCsvRow_cases emailRegex_shape)
  moreover have "trimmed_of (ToString (resolveName row)) (studentName ?s)"
    using trim_trimmed [of "ToString (resolveName row)"] by simp
  moreover have "trimmed_of (ToString (resolveEmail row)) (trim (ToString (resolveEmail row)))"
    by (rule trim_trimmed)
  moreover have "lower_cased_of (trim (ToString (resolveEmail row))) (email ?s)"
    using toLowerCase_lower_cased [of "trim (ToString (resolveEmail row))"] by simp
  moreover have "trimmed_of (ToString (resolveProgram row)) (programName ?s)"
    using trim_trimmed [of "ToString (resolveProgram row)"] by simp
  ultimately show "\<exists>s t. validateCsvRow row = Inr (Valid s) \<and>
      trimmed_of (ToString (resolveName row)) (studentName s) \<and>
      trimmed_of (ToString (resolveEmail row)) t \<and> lower_cased_of t (email s) \<and>
      trimmed_of (ToString (resolveProgram row)) (programName s)"
    by (intro exI [of _ ?s] exI [of _ "trim (ToString (resolveEmail row))"] conjI)
qed

text \<open>
  The three rules at a row with white space around the name and the program and capital
  letters in the address, at \<open>{Name: "", Email: "a@b.com"}\<close> and at
  \<open>{Name: "Bo", Email: "not-an-email"}\<close>.
\<close>

theorem validateCsvRow_rules_witness:
  "two_part_shape ''Ann.Lee@X.COM'' \<and> \<not> two_part_shape ''not-an-email'' \<and>
   (\<exists>s t. validateCsvRow [(''Name'', ''  Ann Lee  ''), (''Email'', ''Ann.Lee@X.COM''),
              (''Program'', '' Data Science '')] = Inr (Valid s) \<and>
      trimmed_of ''  Ann Lee  '' (studentName s) \<and>
      trimmed_of ''Ann.Lee@X.COM'' t \<and> lower_cased_of t (email s) \<and>
      trimmed_of '' Data Science '' (programName s)) \<and>
   validateCsvRow [(''Name'', ''  Ann Lee  ''), (''Email'', ''Ann.Lee@X.COM''),
       (''Program'', '' Data Science '')] =
     Inr (Valid \<lparr>studentName = ''Ann Lee'', email = ''ann.lee@x.com'', programName = ''Data Science''\<rparr>) \<and>
   validateCsvRow [(''Name'', ''''), (''Email'', ''a@b.com'')] =
     Inr (Invalid ''Missing required fields: Name and Email'') \<and>
   validateCsvRow [(''Name'', ''Bo''), (''Email'', ''not-an-email'')] =
     Inr (Invalid ''Invalid email format: not-an-email'')"
proof -
  let ?a = "[(''Name'', ''  Ann Lee  ''), (''Email'', ''Ann.Lee@X.COM''),
      (''Program'', '' Data Science '')]"
  let ?b = "[(''Name'', ''''), (''Email'', ''a@b.com'')]"
  let ?c = "[(''Name'', ''Bo''), (''Email'', ''not-an-email'')]"
  have "regex_test emailRegex ''Ann.Lee@X.COM''" and "\<not> regex_test emailRegex ''not-an-email''"
    by code_simp+
  then have shape: "two_part_shape ''Ann.Lee@X.COM''" "\<not> two_part_shape ''not-an-email''"
    by (simp_all add: emailRegex_shape)
  have a: "resolveName ?a = Str ''  Ann Lee  ''" "resolveEmail ?a = Str ''Ann.Lee@X.COM''"
      "resolveProgram ?a = Str '' Data Science ''"
    by code_simp+
  have b: "resolveName ?b = Undefined"
    by code_simp
  have c: "resolveName ?c = Str ''Bo''" "resolveEmail ?c = Str ''not-an-email''"
    by code_simp+
  note ra = validateCsvRow_rules [of ?a]
  note rb = validateCsvRow_rules [of ?b]
  note rc = validateCsvRow_rules [of ?c]
  have va: "\<exists>s t. validateCsvRow ?a = Inr (Valid s) \<and>
      trimmed_of ''  Ann Lee  '' (studentName s) \<and>
      trimmed_of ''Ann.Lee@X.COM'' t \<and> lower_cased_of t (email s) \<and>
      trimmed_of '' Data Science '' (programName s)"
    using ra shape(1) by (simp add: a)
  have result: "validateCsvRow ?a =
      Inr (Valid \<lparr>studentName = ''Ann Lee'', email = ''ann.lee@x.com'', programName = ''Data Science''\<rparr>)"
    by code_simp
  have vb: "validateCsvRow ?b = Inr (Invalid ''Missing required fields: Name and Email'')"
    using rb by (simp add: b)
  have vc: "validateCsvRow ?c = Inr (Invalid ''Invalid email format: not-an-email'')"
    using rc shape(2) by (simp add: c)
  from shape va result vb vc show ?thesis
    by (intro conjI)
qed

text \<open>
  C8. The validator is a function of the row alone: it has no state to read or change. It
  is total, returning an object and throwing no exception for every row, and its result
  is determined by the values of the eight columns it reads, so that two applications to
  the same row, or to rows that agree on these columns, return the same result.
\<close>

theorem validateCsvRow_total_deterministic:
  "(\<exists>v. validateCsvRow row = Inr v) \<and>
   (\<forall>row'. (\<forall>k \<in> set csvColumns. get row' k = get row k) \<longrightarrow>
      validateCsvRow row' = validateCsvRow row)"
proof
  show "\<exists>v. validateCsvRow row = Inr v"
    by (rule exI, rule validateCsvRow_cases)
next
  show "\<forall>row'. (\<forall>k \<in> set csvColumns. get row' k = get row k) \<longrightarrow>
      validateCsvRow row' = validateCsvRow row"
  proof (intro allI impI)
    fix row'
    assume "\<forall>k \<in> set csvColumns. get row' k = get row k"
    then have "resolveName row' = resolveName row" "resolveEmail row' = resolveEmail row"
        "resolveProgram row' = resolveProgram row"
      by (rule resolve_cong)+
    then show "validateCsvRow row' = validateCsvRow row"
      by (simp only: validateCsvRow_cases)
  qed
qed

text \<open>Two rows that differ in the order of the columns and in a column that is not read.\<close>

theorem validateCsvRow_total_deterministic_witness:
  "(\<exists>v. validateCsvRow [(''Name'', ''Ann Lee''), (''Email'', ''ann@x.com'')] = Inr v) \<and>
   validateCsvRow [(''Phone'', ''1''), (''Email'', ''ann@x.com''), (''Name'', ''Ann Lee'')] =
     validateCsvRow [(''Name'', ''Ann Lee''), (''Email'', ''ann@x.com'')]"
proof -
  let ?a = "[(''Name'', ''Ann Lee''), (''Email'', ''ann@x.com'')]"
  let ?b = "[(''Phone'', ''1''), (''Email'', ''ann@x.com''), (''Name'', ''Ann Lee'')]"
  have h: "\<forall>k \<in> set csvColumns. get ?b k = get ?a k"
    by (simp add: csvColumns_def get_def)
  note det = validateCsvRow_total_deterministic [of ?a]
  from det have 1: "\<exists>v. validateCsvRow ?a = Inr v" by (rule conjunct1)
  from det have "(\<forall>k \<in> set csvColumns. get ?b k = get ?a k) \<longrightarrow> validateCsvRow ?b = validateCsvRow ?a"
    by (elim conjE allE)
  with h have 2: "validateCsvRow ?b = validateCsvRow ?a" by (rule rev_mp)
  from 1 2 show ?thesis by (rule conjI)
qed

section \<open>Properties of the processing loop\<close>

lemma processLoop_append:
  "processLoop env (xs @ ys) w ps fs =
     (case processLoop env xs w ps fs of (w', ps', fs') \<Rightarrow> processLoop env ys w' ps' fs')"
  by (induction xs arbitrary: w ps fs) (simp_all split: prod.splits sum.splits)

lemma processLoop_acc:
  "processLoop env xs w ps fs =
     (case processLoop env xs w [] [] of (w', pa, fa) \<Rightarrow> (w', ps @ pa, fs @ fa))"
proof (induction xs arbitrary: w ps fs)
  case Nil
  show ?case by simp
next
  case (Cons s xs)
  obtain w1 r where step: "processStudent env w s = (w1, r)"
    by (cases "processStudent env w s")
  show ?case
  proof (cases r)
    case (Inl f)
    obtain w2 pa fa where rest: "processLoop env xs w1 [] [] = (w2, pa, fa)"
      by (cases "processLoop env xs w1 [] []")
    have "processLoop env xs w1 ps (fs @ [f]) = (w2, ps @ pa, (fs @ [f]) @ fa)"
      using Cons.IH [of w1 ps "fs @ [f]"] rest by simp
    moreover have "processLoop env xs w1 [] [f] = (w2, pa, [f] @ fa)"
      using Cons.IH [of w1 "[]" "[f]"] rest by simp
    ultimately show ?thesis
      using step Inl by simp
  next
    case (Inr p)
    obtain w2 pa fa where rest: "processLoop env xs w1 [] [] = (w2, pa, fa)"
      by (cases "processLoop env xs w1 [] []")
    have "processLoop env xs w1 (ps @ [p]) fs = (w2, (ps @ [p]) @ pa, fs @ fa)"
      using Cons.IH [of w1 "ps @ [p]" fs] rest by simp
    moreover have "processLoop env xs w1 [p] [] = (w2, [p] @ pa, fa)"
      using Cons.IH [of w1 "[p]" "[]"] rest by simp
    ultimately show ?thesis
      using step Inr by simp
  qed
qed

lemma processLoop_length:
  "processLoop env xs w ps fs = (w', ps', fs') \<Longrightarrow>
     length ps' + length fs' = length ps + length fs + length xs"
proof (induction xs arbitrary: w ps fs)
  case Nil
  then show ?case by simp
next
  case (Cons s xs)
  obtain w1 r where step: "processStudent env w s = (w1, r)"
    by (cases "processStudent env w s")
  show ?case
  proof (cases r)
    case (Inl f)
    with step Cons.prems have "processLoop env xs w1 ps (fs @ [f]) = (w', ps', fs')"
      by simp
    from Cons.IH [OF this] show ?thesis by simp
  next
    case (Inr p)
    with step Cons.prems have "processLoop env xs w1 (ps @ [p]) fs = (w', ps', fs')"
      by simp
    from Cons.IH [OF this] show ?thesis by simp
  qed
qed

lemma processLoop_step_failed:
  assumes "processLoop env pre w ps fs = (w0, ps1, fs1)"
    and "processStudent env w0 s = (w1, Inl f)"
  shows "\<exists>wf pa fa. processLoop env rest w1 [] [] = (wf, pa, fa) \<and>
           processLoop env (pre @ s # rest) w ps fs = (wf, ps1 @ pa, fs1 @ [f] @ fa)"
proof -
  obtain wf pa fa where rest: "processLoop env rest w1 [] [] = (wf, pa, fa)"
    by (cases "processLoop env rest w1 [] []")
  have "processLoop env (pre @ s # rest) w ps fs = processLoop env rest w1 ps1 (fs1 @ [f])"
    using assms by (simp add: processLoop_append)
  also have "\<dots> = (wf, ps1 @ pa, (fs1 @ [f]) @ fa)"
    using processLoop_acc [of env rest w1 ps1 "fs1 @ [f]"] rest by simp
  finally show ?thesis
    using rest by simp
qed

lemma processLoop_step_processed:
  assumes "processLoop env pre w ps fs = (w0, ps1, fs1)"
    and "processStudent env w0 s = (w1, Inr p)"
  shows "\<exists>wf pa fa. processLoop env rest w1 [] [] = (wf, pa, fa) \<and>
           processLoop env (pre @ s # rest) w ps fs = (wf, ps1 @ [p] @ pa, fs1 @ fa)"
proof -
  obtain wf pa fa where rest: "processLoop env rest w1 [] [] = (wf, pa, fa)"
    by (cases "processLoop env rest w1 [] []")
  have "processLoop env (pre @ s # rest) w ps fs = processLoop env rest w1 (ps1 @ [p]) fs1"
    using assms by (simp add: processLoop_append)
  also have "\<dots> = (wf, (ps1 @ [p]) @ pa, fs1 @ fa)"
    using processLoop_acc [of env rest w1 "ps1 @ [p]" fs1] rest by simp
  finally show ?thesis
    using rest by simp
qed

lemma uploadToSupabase_failed_world:
  "uploadToSupabase env i w buffer cid = (w', Inl msg) \<Longrightarrow> w' = w"
  by (auto simp: uploadToSupabase_def Let_def split: upload_result.splits option.splits if_splits)

lemma generateCertificate_world:
  "generateCertificate env i w name cid program date = (w', r) \<Longrightarrow> w' = w\<lparr>rendered := rendered w @ [cid]\<rparr>"
  by (auto simp: generateCertificate_def)

lemma save_world:
  "save env i w c = (w', Inr u) \<Longrightarrow> w' = w\<lparr>db := db w @ [c]\<rparr>"
  by (auto simp: save_def split: option.splits if_splits)

lemma save_fresh:
  "save env i w c = (w', Inr u) \<Longrightarrow> certificateId c \<notin> set (map certificateId (db w))"
  by (auto simp: save_def split: option.splits if_splits)

lemma sendCertificateEmail_world:
  "sendCertificateEmail env i w address name cid = (w', t, r) \<Longrightarrow>
     w' = w\<lparr>outbox := outbox w @
       [\<lparr>mail_from = EMAIL_USER env, mail_to = address, mail_studentName = name,
         mail_verificationUrl = ''https://upgradtask-frontend.vercel.app/certificate/'' @ cid\<rparr>]\<rparr>"
  by (auto simp: sendCertificateEmail_def Let_def split: prod.splits sum.splits)

lemma processStudent_upload_failed:
  assumes "generateCertificate env (ticks w) (w\<lparr>ticks := Suc (ticks w)\<rparr>) (studentName s)
             (''cert_'' @ uuidv4 env (ticks w)) (programName s) (newDate env (ticks w)) = (w1, Inr buf)"
    and "uploadToSupabase env (ticks w) w1 buf (''cert_'' @ uuidv4 env (ticks w)) = (w2, Inl msg)"
  shows "processStudent env w s =
           (w1, Inl \<lparr>f_studentName = studentName s, f_email = email s, f_status = ''Failed'',
                     f_error = msg\<rparr>)"
  using assms uploadToSupabase_failed_world [OF assms(2)]
  by (simp add: processStudent_def tryBlock_def Let_def)

lemma processStudent_notify_failed:
  assumes "generateCertificate env (ticks w) (w\<lparr>ticks := Suc (ticks w)\<rparr>) (studentName s)
             (''cert_'' @ uuidv4 env (ticks w)) (programName s) (newDate env (ticks w)) = (w1, Inr buf)"
    and "uploadToSupabase env (ticks w) w1 buf (''cert_'' @ uuidv4 env (ticks w)) = (w2, Inr url)"
    and "save env (ticks w) w2
           \<lparr>certificateId = ''cert_'' @ uuidv4 env (ticks w), cert_studentName = studentName s,
            cert_email = email s, cert_programName = programName s, certificateUrl = url,
            certificateFileType = ''application/pdf'', certificateImageUrl = url,
            dateOfIssue = newDate env (ticks w)\<rparr> = (w3, Inr u)"
    and "sendCertificateEmail env (ticks w) w3 (email s) (studentName s)
           (''cert_'' @ uuidv4 env (ticks w)) = (w4, t, Inl msg)"
  shows "processStudent env w s =
           (w4, Inl \<lparr>f_studentName = studentName s, f_email = email s, f_status = ''Failed'',
                     f_error = msg\<rparr>)"
  using assms by (simp add: processStudent_def tryBlock_def Let_def)

lemma processStudent_succeeded:
  assumes "generateCertificate env (ticks w) (w\<lparr>ticks := Suc (ticks w)\<rparr>) (studentName s)
             (''cert_'' @ uuidv4 env (ticks w)) (programName s) (newDate env (ticks w)) = (w1, Inr buf)"
    and "uploadToSupabase env (ticks w) w1 buf (''cert_'' @ uuidv4 env (ticks w)) = (w2, Inr url)"
    and "save env (ticks w) w2
           \<lparr>certificateId = ''cert_'' @ uuidv4 env (ticks w), cert_studentName = studentName s,
            cert_email = email s, cert_programName = programName s, certificateUrl = url,
            certificateFileType = ''application/pdf'', certificateImageUrl = url,
            dateOfIssue = newDate env (ticks w)\<rparr> = (w3, Inr u)"
    and "sendCertificateEmail env (ticks w) w3 (email s) (studentName s)
           (''cert_'' @ uuidv4 env (ticks w)) = (w4, t, Inr u')"
  shows "processStudent env w s =
           (w4, Inr \<lparr>p_studentName = studentName s, p_email = email s,
                     p_certificateId = ''cert_'' @ uuidv4 env (ticks w), p_status = ''Success'',
                     p_certificateUrl = url\<rparr>)"
  using assms by (simp add: processStudent_def tryBlock_def Let_def)

lemma onData_total: "\<exists>res. onData rows results errors = Inr res"
proof (induction rows arbitrary: results errors)
  case Nil
  show ?case by simp
next
  case (Cons r rows)
  obtain v where v: "validateCsvRow r = Inr v"
    using validateCsvRow_cases [of r] by (rule exI [THEN exE])
  show ?case
  proof (cases v)
    case (Invalid msg)
    with v Cons.IH [of results "errors @ [\<lparr>e_row = r, e_error = msg\<rparr>]"] show ?thesis by simp
  next
    case (Valid d)
    with v Cons.IH [of "results @ [d]" errors] show ?thesis by simp
  qed
qed

lemma onData_length:
  "onData rows results errors = Inr (results', errors') \<Longrightarrow>
     length results' + length errors' = length results + length errors + length rows"
proof (induction rows arbitrary: results errors)
  case Nil
  then show ?case by simp
next
  case (Cons r rows)
  obtain v where v: "validateCsvRow r = Inr v"
    using validateCsvRow_cases [of r] by (rule exI [THEN exE])
  show ?case
  proof (cases v)
    case (Invalid msg)
    with v Cons.prems
    have "onData rows results (errors @ [\<lparr>e_row = r, e_error = msg\<rparr>]) = Inr (results', errors')"
      by simp
    from Cons.IH [OF this] show ?thesis by simp
  next
    case (Valid d)
    with v Cons.prems have "onData rows (results @ [d]) errors = Inr (results', errors')"
      by simp
    from Cons.IH [OF this] show ?thesis by simp
  qed
qed

lemma onData_all_invalid:
  assumes "\<forall>r \<in> set rows. \<exists>msg. validateCsvRow r = Inr (Invalid msg)"
  shows "\<exists>errs. onData rows results errors = Inr (results, errors @ errs) \<and>
           map e_row errs = rows \<and>
           (\<forall>e \<in> set errs. validateCsvRow (e_row e) = Inr (Invalid (e_error e)))"
  using assms
proof (induction rows arbitrary: errors)
  case Nil
  show ?case by simp
next
  case (Cons r rows)
  from Cons.prems obtain msg where msg: "validateCsvRow r = Inr (Invalid msg)"
    by auto
  from Cons.prems have "\<forall>r \<in> set rows. \<exists>msg. validateCsvRow r = Inr (Invalid msg)"
    by simp
  from Cons.IH [OF this, of "errors @ [\<lparr>e_row = r, e_error = msg\<rparr>]"]
  obtain errs where errs:
      "onData rows results (errors @ [\<lparr>e_row = r, e_error = msg\<rparr>]) =
         Inr (results, (errors @ [\<lparr>e_row = r, e_error = msg\<rparr>]) @ errs)"
      "map e_row errs = rows"
      "\<forall>e \<in> set errs. validateCsvRow (e_row e) = Inr (Invalid (e_error e))"
    by blast
  have "onData (r # rows) results errors =
      Inr (results, errors @ (\<lparr>e_row = r, e_error = msg\<rparr> # errs))"
    using msg errs(1) by simp
  moreover have "map e_row (\<lparr>e_row = r, e_error = msg\<rparr> # errs) = r # rows"
    using errs(2) by simp
  moreover have "\<forall>e \<in> set (\<lparr>e_row = r, e_error = msg\<rparr> # errs).
      validateCsvRow (e_row e) = Inr (Invalid (e_error e))"
    using msg errs(3) by simp
  ultimately show ?case
    by (intro exI [of _ "\<lparr>e_row = r, e_error = msg\<rparr> # errs"] conjI)
qed

lemma onData_eq:
  "onData rows results errors = Inr (results @ validStudents rows, errors @ invalidRows rows)"
proof (induction rows arbitrary: results errors)
  case Nil
  show ?case by simp
next
  case (Cons r rows)
  obtain v where v: "validateCsvRow r = Inr v"
    using validateCsvRow_cases [of r] by (rule exI [THEN exE])
  show ?case
  proof (cases v)
    case (Invalid msg)
    with v Cons.IH [of results "errors @ [\<lparr>e_row = r, e_error = msg\<rparr>]"] show ?thesis by simp
  next
    case (Valid d)
    with v Cons.IH [of "results @ [d]" errors] show ?thesis by simp
  qed
qed

lemma processStudent_entry:
  "processStudent env w s = (w', Inl f) \<Longrightarrow> f_studentName f = studentName s \<and> f_email f = email s"
  "processStudent env w s = (w', Inr p) \<Longrightarrow> p_studentName p = studentName s \<and> p_email p = email s"
proof -
  obtain w1 r where t: "tryBlock env w s = (w1, r)"
    by (cases "tryBlock env w s")
  show "processStudent env w s = (w', Inl f) \<Longrightarrow>
      f_studentName f = studentName s \<and> f_email f = email s"
    using t by (cases r) (auto simp: processStudent_def)
  assume p: "processStudent env w s = (w', Inr p)"
  with t have r: "r = Inr p"
    by (cases r) (auto simp: processStudent_def)
  from t [unfolded r]
  show "p_studentName p = studentName s \<and> p_email p = email s"
    by (auto simp: tryBlock_def Let_def split: prod.splits sum.splits)
qed

lemma uploadToSupabase_ok_world:
  "uploadToSupabase env i w buffer cid = (w', Inr url) \<Longrightarrow>
     w' = w\<lparr>bucket := bucket w @ [(''Mediseek/'' @ cid @ ''.pdf'', buffer)]\<rparr> \<and>
     url = getPublicUrl env (''Mediseek/'' @ cid @ ''.pdf'')"
  by (auto simp: uploadToSupabase_def Let_def split: upload_result.splits option.splits if_splits)

text \<open>
  C2. When the loop reaches a student whose certificate is rendered and whose upload
  fails, the pass pushes nothing to the processed list, leaves the bucket, the collection
  and the messages handed to the mail transport as they were (no document is saved and
  \<open>sendMail\<close> is not called), pushes the student with the message of the error to the
  failed list, and the loop goes on with the students that follow.
\<close>

theorem upload_failure_isolated:
  assumes reach: "processLoop env pre w ps fs = (w0, ps1, fs1)"
    and render: "generateCertificate env (ticks w0) (w0\<lparr>ticks := Suc (ticks w0)\<rparr>) (studentName s)
        (''cert_'' @ uuidv4 env (ticks w0)) (programName s) (newDate env (ticks w0)) = (w1, Inr buf)"
    and store: "uploadToSupabase env (ticks w0) w1 buf (''cert_'' @ uuidv4 env (ticks w0)) = (w2, Inl msg)"
  shows "\<exists>wf pa fa.
           processLoop env rest w2 [] [] = (wf, pa, fa) \<and>
           processLoop env (pre @ s # rest) w ps fs =
             (wf, ps1 @ pa,
              fs1 @ [\<lparr>f_studentName = studentName s, f_email = email s, f_status = ''Failed'',
                       f_error = msg\<rparr>] @ fa) \<and>
           bucket w2 = bucket w0 \<and> db w2 = db w0 \<and> outbox w2 = outbox w0"
proof -
  have w2: "w2 = w1"
    using store by (rule uploadToSupabase_failed_world)
  have w1: "w1 = w0\<lparr>ticks := Suc (ticks w0), rendered := rendered w0 @ [''cert_'' @ uuidv4 env (ticks w0)]\<rparr>"
    using generateCertificate_world [OF render] by simp
  have step: "processStudent env w0 s =
      (w2, Inl \<lparr>f_studentName = studentName s, f_email = email s, f_status = ''Failed'',
                f_error = msg\<rparr>)"
    using processStudent_upload_failed [OF render store] w2 by simp
  from processLoop_step_failed [OF reach step, of rest]
  obtain wf pa fa where loop: "processLoop env rest w2 [] [] = (wf, pa, fa)"
      "processLoop env (pre @ s # rest) w ps fs =
         (wf, ps1 @ pa,
          fs1 @ [\<lparr>f_studentName = studentName s, f_email = email s, f_status = ''Failed'',
                   f_error = msg\<rparr>] @ fa)"
    by (elim exE conjE)
  have unchanged: "bucket w2 = bucket w0" "db w2 = db w0" "outbox w2 = outbox w0"
    using w1 w2 by simp_all
  from loop unchanged show ?thesis
    by (intro exI conjI)
qed

text \<open>
  A batch of three in which the bucket refuses the document of the second student under
  its access policy.
\<close>

theorem upload_failure_isolated_witness:
  "\<exists>w0 ps1 fs1 w1 msg wf pa fa.
     processLoop upload_denied_env [ann] example_world [] [] = (w0, ps1, fs1) \<and>
     generateCertificate upload_denied_env (ticks w0) (w0\<lparr>ticks := Suc (ticks w0)\<rparr>) (studentName bo)
        (''cert_'' @ uuidv4 upload_denied_env (ticks w0)) (programName bo)
        (newDate upload_denied_env (ticks w0)) = (w1, Inr ''PDF Bo'') \<and>
     uploadToSupabase upload_denied_env (ticks w0) w1 ''PDF Bo''
        (''cert_'' @ uuidv4 upload_denied_env (ticks w0)) = (w1, Inl msg) \<and>
     processLoop upload_denied_env [cy] w1 [] [] = (wf, pa, fa) \<and>
     processLoop upload_denied_env ([ann] @ bo # [cy]) example_world [] [] =
       (wf, ps1 @ pa,
        fs1 @ [\<lparr>f_studentName = studentName bo, f_email = email bo, f_status = ''Failed'',
                 f_error = msg\<rparr>] @ fa) \<and>
     bucket w1 = bucket w0 \<and> db w1 = db w0 \<and> outbox w1 = outbox w0"
proof -
  obtain w0 ps1 fs1 where reach: "processLoop upload_denied_env [ann] example_world [] [] = (w0, ps1, fs1)"
    by (cases "processLoop upload_denied_env [ann] example_world [] []")
  define cid where "cid = ''cert_'' @ uuidv4 upload_denied_env (ticks w0)"
  define w1 where "w1 = w0\<lparr>ticks := Suc (ticks w0), rendered := rendered w0 @ [cid]\<rparr>"
  have render: "generateCertificate upload_denied_env (ticks w0) (w0\<lparr>ticks := Suc (ticks w0)\<rparr>)
      (studentName bo) (''cert_'' @ uuidv4 upload_denied_env (ticks w0)) (programName bo)
      (newDate upload_denied_env (ticks w0)) = (w1, Inr ''PDF Bo'')"
    by (simp add: generateCertificate_def upload_denied_env_def example_env_def bo_def w1_def cid_def)
  have inc: "\<not> includes_str ''new row violates row-level security policy'' ''ENOTFOUND''"
      "includes_str ''new row violates row-level security policy'' ''row-level security policy''"
    by code_simp+
  obtain msg where store: "uploadToSupabase upload_denied_env (ticks w0) w1 ''PDF Bo''
      (''cert_'' @ uuidv4 upload_denied_env (ticks w0)) = (w1, Inl msg)"
    using inc by (simp add: uploadToSupabase_def Let_def upload_denied_env_def example_env_def)
  from upload_failure_isolated [OF reach render store, of "[cy]"] reach render store
  show ?thesis by blast
qed

text \<open>
  C1, as the code has it. The message is sent inside the \<open>try\<close> block, before the entry
  is pushed to the processed list. When the loop reaches a student whose certificate is
  rendered, uploaded and saved and whose message fails, the pass pushes nothing to the
  processed list and pushes the student, with the message of the mail error, to the
  failed list; the document saved for the student stays in the collection, and the loop
  goes on with the students that follow.
\<close>

theorem notify_failure_recorded_failed:
  assumes reach: "processLoop env pre w ps fs = (w0, ps1, fs1)"
    and render: "generateCertificate env (ticks w0) (w0\<lparr>ticks := Suc (ticks w0)\<rparr>) (studentName s)
        (''cert_'' @ uuidv4 env (ticks w0)) (programName s) (newDate env (ticks w0)) = (w1, Inr buf)"
    and store: "uploadToSupabase env (ticks w0) w1 buf (''cert_'' @ uuidv4 env (ticks w0)) = (w2, Inr url)"
    and persist: "save env (ticks w0) w2
        \<lparr>certificateId = ''cert_'' @ uuidv4 env (ticks w0), cert_studentName = studentName s,
         cert_email = email s, cert_programName = programName s, certificateUrl = url,
         certificateFileType = ''application/pdf'', certificateImageUrl = url,
         dateOfIssue = newDate env (ticks w0)\<rparr> = (w3, Inr u)"
    and notify: "sendCertificateEmail env (ticks w0) w3 (email s) (studentName s)
        (''cert_'' @ uuidv4 env (ticks w0)) = (w4, t, Inl msg)"
  shows "\<exists>wf pa fa.
           processLoop env rest w4 [] [] = (wf, pa, fa) \<and>
           processLoop env (pre @ s # rest) w ps fs =
             (wf, ps1 @ pa,
              fs1 @ [\<lparr>f_studentName = studentName s, f_email = email s, f_status = ''Failed'',
                       f_error = msg\<rparr>] @ fa) \<and>
           db w4 = db w0 @
             [\<lparr>certificateId = ''cert_'' @ uuidv4 env (ticks w0), cert_studentName = studentName s,
               cert_email = email s, cert_programName = programName s, certificateUrl = url,
               certificateFileType = ''application/pdf'', certificateImageUrl = url,
               dateOfIssue = newDate env (ticks w0)\<rparr>]"
proof -
  have step: "processStudent env w0 s =
      (w4, Inl \<lparr>f_studentName = studentName s, f_email = email s, f_status = ''Failed'',
                f_error = msg\<rparr>)"
    using render store persist notify by (rule processStudent_notify_failed)
  from processLoop_step_failed [OF reach step, of rest]
  obtain wf pa fa where loop: "processLoop env rest w4 [] [] = (wf, pa, fa)"
      "processLoop env (pre @ s # rest) w ps fs =
         (wf, ps1 @ pa,
          fs1 @ [\<lparr>f_studentName = studentName s, f_email = email s, f_status = ''Failed'',
                   f_error = msg\<rparr>] @ fa)"
    by (elim exE conjE)
  have "db w1 = db w0"
    using generateCertificate_world [OF render] by simp
  moreover have "db w2 = db w1"
    using uploadToSupabase_ok_world [OF store] by simp
  moreover have "db w3 = db w2 @
      [\<lparr>certificateId = ''cert_'' @ uuidv4 env (ticks w0), cert_studentName = studentName s,
        cert_email = email s, cert_programName = programName s, certificateUrl = url,
        certificateFileType = ''application/pdf'', certificateImageUrl = url,
        dateOfIssue = newDate env (ticks w0)\<rparr>]"
    using save_world [OF persist] by simp
  moreover have "db w4 = db w3"
    using sendCertificateEmail_world [OF notify] by simp
  ultimately have saved: "db w4 = db w0 @
      [\<lparr>certificateId = ''cert_'' @ uuidv4 env (ticks w0), cert_studentName = studentName s,
        cert_email = email s, cert_programName = programName s, certificateUrl = url,
        certificateFileType = ''application/pdf'', certificateImageUrl = url,
        dateOfIssue = newDate env (ticks w0)\<rparr>]"
    by simp
  from loop saved show ?thesis
    by (intro exI conjI)
qed

text \<open>A batch of two in which the mail transport rejects the message of the first student.\<close>

theorem notify_failure_recorded_failed_witness:
  "\<exists>w1 w2 w3 w4 wf pa fa.
     processLoop mail_rejected_env [] example_world [] [] = (example_world, [], []) \<and>
     generateCertificate mail_rejected_env 0 (example_world\<lparr>ticks := Suc 0\<rparr>) ''Ann Lee''
        ''cert_a'' ''General Program'' 1000 = (w1, Inr ''PDF Ann Lee'') \<and>
     uploadToSupabase mail_rejected_env 0 w1 ''PDF Ann Lee'' ''cert_a'' =
        (w2, Inr ''https://storage.example/Mediseek/cert_a.pdf'') \<and>
     save mail_rejected_env 0 w2
        \<lparr>certificateId = ''cert_a'', cert_studentName = ''Ann Lee'', cert_email = ''ann@x.com'',
         cert_programName = ''General Program'',
         certificateUrl = ''https://storage.example/Mediseek/cert_a.pdf'',
         certificateFileType = ''application/pdf'',
         certificateImageUrl = ''https://storage.example/Mediseek/cert_a.pdf'',
         dateOfIssue = 1000\<rparr> = (w3, Inr ()) \<and>
     sendCertificateEmail mail_rejected_env 0 w3 ''ann@x.com'' ''Ann Lee'' ''cert_a'' =
        (w4, 120, Inl ''Invalid login'') \<and>
     processLoop mail_rejected_env [bo] w4 [] [] = (wf, pa, fa) \<and>
     processLoop mail_rejected_env [ann, bo] example_world [] [] =
       (wf, pa,
        \<lparr>f_studentName = ''Ann Lee'', f_email = ''ann@x.com'', f_status = ''Failed'',
          f_error = ''Invalid login''\<rparr> # fa) \<and>
     map certificateId (db w4) = [''cert_a'']"
proof -
  have e: "uuidv4 mail_rejected_env 0 = ''a''" "newDate mail_rejected_env 0 = 1000"
      "ticks example_world = 0" "db example_world = []"
      "studentName ann = ''Ann Lee''" "email ann = ''ann@x.com''"
      "programName ann = ''General Program''"
    by (simp_all add: mail_rejected_env_def example_env_def example_world_def ann_def)
  define w1 where "w1 = example_world\<lparr>ticks := Suc 0, rendered := [''cert_a'']\<rparr>"
  define w2 where "w2 = w1\<lparr>bucket := [(''Mediseek/cert_a.pdf'', ''PDF Ann Lee'')]\<rparr>"
  define w3 where "w3 = w2
      \<lparr>db := [\<lparr>certificateId = ''cert_a'', cert_studentName = ''Ann Lee'', cert_email = ''ann@x.com'',
               cert_programName = ''General Program'',
               certificateUrl = ''https://storage.example/Mediseek/cert_a.pdf'',
               certificateFileType = ''application/pdf'',
               certificateImageUrl = ''https://storage.example/Mediseek/cert_a.pdf'',
               dateOfIssue = 1000\<rparr>]\<rparr>"
  have render: "generateCertificate mail_rejected_env 0 (example_world\<lparr>ticks := Suc 0\<rparr>)
      ''Ann Lee'' ''cert_a'' ''General Program'' 1000 = (w1, Inr ''PDF Ann Lee'')"
    by (simp add: generateCertificate_def mail_rejected_env_def example_env_def example_world_def w1_def)
  have store: "uploadToSupabase mail_rejected_env 0 w1 ''PDF Ann Lee'' ''cert_a'' =
      (w2, Inr ''https://storage.example/Mediseek/cert_a.pdf'')"
    by (simp add: uploadToSupabase_def Let_def mail_rejected_env_def example_env_def example_world_def
        w1_def w2_def)
  have persist: "save mail_rejected_env 0 w2
      \<lparr>certificateId = ''cert_a'', cert_studentName = ''Ann Lee'', cert_email = ''ann@x.com'',
       cert_programName = ''General Program'',
       certificateUrl = ''https://storage.example/Mediseek/cert_a.pdf'',
       certificateFileType = ''application/pdf'',
       certificateImageUrl = ''https://storage.example/Mediseek/cert_a.pdf'',
       dateOfIssue = 1000\<rparr> = (w3, Inr ())"
    by (simp add: save_def mail_rejected_env_def example_env_def example_world_def w1_def w2_def w3_def)
  obtain w4 where notify: "sendCertificateEmail mail_rejected_env 0 w3 ''ann@x.com'' ''Ann Lee'' ''cert_a'' =
      (w4, 120, Inl ''Invalid login'')"
    by (simp add: sendCertificateEmail_def Let_def raceTimeout_def mail_rejected_env_def example_env_def)
  have reach: "processLoop mail_rejected_env [] example_world [] [] = (example_world, [], [])"
    by simp
  from notify_failure_recorded_failed [of mail_rejected_env "[]" example_world "[]" "[]"
      example_world "[]" "[]" ann w1 "''PDF Ann Lee''" w2
      "''https://storage.example/Mediseek/cert_a.pdf''" w3 "()" w4 120 "''Invalid login''" "[bo]"]
    reach render store persist notify
  obtain wf pa fa where "processLoop mail_rejected_env [bo] w4 [] [] = (wf, pa, fa)"
      "processLoop mail_rejected_env [ann, bo] example_world [] [] =
        (wf, pa,
         \<lparr>f_studentName = ''Ann Lee'', f_email = ''ann@x.com'', f_status = ''Failed'',
           f_error = ''Invalid login''\<rparr> # fa)"
      "map certificateId (db w4) = [''cert_a'']"
    unfolding e by auto
  with reach render store persist notify show ?thesis
    by (intro exI conjI)
qed

text \<open>
  C1 as stated fails: with a mail transport that rejects the message, the only student of
  the file is reported under \<open>failed\<close>, and \<open>processed\<close> is empty, although the
  certificate is uploaded and saved.
\<close>

theorem notify_failure_counterexample:
  "upload_csv mail_rejected_env example_world
     (Some \<lparr>originalname = ''students.csv'',
            csv = CsvEnd [[(''Name'', ''Ann Lee''), (''Email'', ''ann@x.com'')]]\<rparr>) =
   (\<lparr>ticks = 1, rendered = [''cert_a''],
     bucket = [(''Mediseek/cert_a.pdf'', ''PDF Ann Lee'')],
     db = [\<lparr>certificateId = ''cert_a'', cert_studentName = ''Ann Lee'', cert_email = ''ann@x.com'',
            cert_programName = ''General Program'',
            certificateUrl = ''https://storage.example/Mediseek/cert_a.pdf'',
            certificateFileType = ''application/pdf'',
            certificateImageUrl = ''https://storage.example/Mediseek/cert_a.pdf'',
            dateOfIssue = 1000\<rparr>],
     outbox = [\<lparr>mail_from = ''admin@example.com'', mail_to = ''ann@x.com'',
                mail_studentName = ''Ann Lee'',
                mail_verificationUrl = ''https://upgradtask-frontend.vercel.app/certificate/cert_a''\<rparr>]\<rparr>,
    Status200
      \<lparr>summary = \<lparr>totalRecords = 1, successfullyProcessed = 0, summary_failed = 1\<rparr>,
       processed = [],
       failed = [\<lparr>f_studentName = ''Ann Lee'', f_email = ''ann@x.com'', f_status = ''Failed'',
                  f_error = ''Invalid login''\<rparr>],
       csvValidationErrors = []\<rparr>)"
  by code_simp

lemma raceTimeout_bound: "fst (raceTimeout p ms msg) \<le> ms"
  by (simp add: raceTimeout_def split: promise.splits)

lemma raceTimeout_late:
  "\<forall>t r. p = Settled t r \<longrightarrow> ms < t \<Longrightarrow> raceTimeout p ms msg = (ms, Inl msg)"
  by (cases p) (simp_all add: raceTimeout_def)

lemma sendCertificateEmail_bound:
  "fst (snd (sendCertificateEmail env i w address name cid)) \<le> 15000"
proof -
  let ?p = "sendMail env i
      \<lparr>mail_from = EMAIL_USER env, mail_to = address, mail_studentName = name,
       mail_verificationUrl = ''https://upgradtask-frontend.vercel.app/certificate/'' @ cid\<rparr>"
  obtain t r where race: "raceTimeout ?p 15000 ''Email send timeout'' = (t, r)"
    by (cases "raceTimeout ?p 15000 ''Email send timeout''")
  with raceTimeout_bound [of ?p 15000 "''Email send timeout''"] have "t \<le> 15000"
    by simp
  with race show ?thesis
    by (cases r) (simp_all add: sendCertificateEmail_def Let_def)
qed

lemma sendCertificateEmail_late:
  assumes "\<forall>t r. sendMail env i
      \<lparr>mail_from = EMAIL_USER env, mail_to = address, mail_studentName = name,
       mail_verificationUrl = ''https://upgradtask-frontend.vercel.app/certificate/'' @ cid\<rparr>
      = Settled t r \<longrightarrow> 15000 < t"
  shows "sendCertificateEmail env i w address name cid =
      (w\<lparr>outbox := outbox w @
          [\<lparr>mail_from = EMAIL_USER env, mail_to = address, mail_studentName = name,
            mail_verificationUrl = ''https://upgradtask-frontend.vercel.app/certificate/'' @ cid\<rparr>]\<rparr>,
       15000, Inl ''Email send timeout'')"
  using raceTimeout_late [OF assms, of "''Email send timeout''"]
  by (simp add: sendCertificateEmail_def Let_def)

text \<open>
  In \<open>src/index.js\<close>, \<open>sendCertificateEmail\<close> settles within 15000 milliseconds whatever
  the mail transport does, and when the transport has not answered by then it throws the
  error \<open>Email send timeout\<close>. That error is caught by the loop: the student, whose
  certificate is rendered, uploaded and saved, is pushed to the failed list with that
  message, and the loop goes on with the students that follow.
\<close>

theorem sendCertificateEmail_timeout:
  assumes reach: "processLoop env pre w ps fs = (w0, ps1, fs1)"
    and render: "generateCertificate env (ticks w0) (w0\<lparr>ticks := Suc (ticks w0)\<rparr>) (studentName s)
        (''cert_'' @ uuidv4 env (ticks w0)) (programName s) (newDate env (ticks w0)) = (w1, Inr buf)"
    and store: "uploadToSupabase env (ticks w0) w1 buf (''cert_'' @ uuidv4 env (ticks w0)) = (w2, Inr url)"
    and persist: "save env (ticks w0) w2
        \<lparr>certificateId = ''cert_'' @ uuidv4 env (ticks w0), cert_studentName = studentName s,
         cert_email = email s, cert_programName = programName s, certificateUrl = url,
         certificateFileType = ''application/pdf'', certificateImageUrl = url,
         dateOfIssue = newDate env (ticks w0)\<rparr> = (w3, Inr u)"
    and late: "\<forall>t r. sendMail env (ticks w0)
        \<lparr>mail_from = EMAIL_USER env, mail_to = email s, mail_studentName = studentName s,
         mail_verificationUrl = ''https://upgradtask-frontend.vercel.app/certificate/'' @
           (''cert_'' @ uuidv4 env (ticks w0))\<rparr> = Settled t r \<longrightarrow> 15000 < t"
  shows "fst (snd (sendCertificateEmail env i w' address name cid)) \<le> 15000 \<and>
         (\<exists>w4 wf pa fa.
            sendCertificateEmail env (ticks w0) w3 (email s) (studentName s)
              (''cert_'' @ uuidv4 env (ticks w0)) = (w4, 15000, Inl ''Email send timeout'') \<and>
            processLoop env rest w4 [] [] = (wf, pa, fa) \<and>
            processLoop env (pre @ s # rest) w ps fs =
              (wf, ps1 @ pa,
               fs1 @ [\<lparr>f_studentName = studentName s, f_email = email s, f_status = ''Failed'',
                        f_error = ''Email send timeout''\<rparr>] @ fa))"
proof
  show "fst (snd (sendCertificateEmail env i w' address name cid)) \<le> 15000"
    by (rule sendCertificateEmail_bound)
next
  obtain w4 where notify: "sendCertificateEmail env (ticks w0) w3 (email s) (studentName s)
      (''cert_'' @ uuidv4 env (ticks w0)) = (w4, 15000, Inl ''Email send timeout'')"
    using sendCertificateEmail_late [OF late, of w3] by simp
  have step: "processStudent env w0 s =
      (w4, Inl \<lparr>f_studentName = studentName s, f_email = email s, f_status = ''Failed'',
                f_error = ''Email send timeout''\<rparr>)"
    using render store persist notify by (rule processStudent_notify_failed)
  from processLoop_step_failed [OF reach step, of rest]
  obtain wf pa fa where "processLoop env rest w4 [] [] = (wf, pa, fa)"
      "processLoop env (pre @ s # rest) w ps fs =
         (wf, ps1 @ pa,
          fs1 @ [\<lparr>f_studentName = studentName s, f_email = email s, f_status = ''Failed'',
                   f_error = ''Email send timeout''\<rparr>] @ fa)"
    by (elim exE conjE)
  with notify show "\<exists>w4 wf pa fa.
      sendCertificateEmail env (ticks w0) w3 (email s) (studentName s)
        (''cert_'' @ uuidv4 env (ticks w0)) = (w4, 15000, Inl ''Email send timeout'') \<and>
      processLoop env rest w4 [] [] = (wf, pa, fa) \<and>
      processLoop env (pre @ s # rest) w ps fs =
        (wf, ps1 @ pa,
         fs1 @ [\<lparr>f_studentName = studentName s, f_email = email s, f_status = ''Failed'',
                  f_error = ''Email send timeout''\<rparr>] @ fa)"
    by (intro exI conjI)
qed

text \<open>A batch of two with a mail transport that never answers.\<close>

theorem sendCertificateEmail_timeout_witness:
  "\<exists>w1 w2 w3 w4 wf pa fa.
     generateCertificate mail_pending_env 0 (example_world\<lparr>ticks := Suc 0\<rparr>) ''Ann Lee''
        ''cert_a'' ''General Program'' 1000 = (w1, Inr ''PDF Ann Lee'') \<and>
     uploadToSupabase mail_pending_env 0 w1 ''PDF Ann Lee'' ''cert_a'' =
        (w2, Inr ''https://storage.example/Mediseek/cert_a.pdf'') \<and>
     save mail_pending_env 0 w2
        \<lparr>certificateId = ''cert_a'', cert_studentName = ''Ann Lee'', cert_email = ''ann@x.com'',
         cert_programName = ''General Program'',
         certificateUrl = ''https://storage.example/Mediseek/cert_a.pdf'',
         certificateFileType = ''application/pdf'',
         certificateImageUrl = ''https://storage.example/Mediseek/cert_a.pdf'',
         dateOfIssue = 1000\<rparr> = (w3, Inr ()) \<and>
     fst (snd (sendCertificateEmail mail_pending_env 0 example_world ''bo@x.com'' ''Bo'' ''cert_b'')) \<le> 15000 \<and>
     sendCertificateEmail mail_pending_env 0 w3 ''ann@x.com'' ''Ann Lee'' ''cert_a'' =
        (w4, 15000, Inl ''Email send timeout'') \<and>
     processLoop mail_pending_env [bo] w4 [] [] = (wf, pa, fa) \<and>
     processLoop mail_pending_env [ann, bo] example_world [] [] =
       (wf, pa,
        \<lparr>f_studentName = ''Ann Lee'', f_email = ''ann@x.com'', f_status = ''Failed'',
          f_error = ''Email send timeout''\<rparr> # fa)"
proof -
  have e: "uuidv4 mail_pending_env 0 = ''a''" "newDate mail_pending_env 0 = 1000"
      "ticks example_world = 0"
      "studentName ann = ''Ann Lee''" "email ann = ''ann@x.com''"
      "programName ann = ''General Program''"
    by (simp_all add: mail_pending_env_def example_env_def example_world_def ann_def)
  define w1 where "w1 = example_world\<lparr>ticks := Suc 0, rendered := [''cert_a'']\<rparr>"
  define w2 where "w2 = w1\<lparr>bucket := [(''Mediseek/cert_a.pdf'', ''PDF Ann Lee'')]\<rparr>"
  define w3 where "w3 = w2
      \<lparr>db := [\<lparr>certificateId = ''cert_a'', cert_studentName = ''Ann Lee'', cert_email = ''ann@x.com'',
               cert_programName = ''General Program'',
               certificateUrl = ''https://storage.example/Mediseek/cert_a.pdf'',
               certificateFileType = ''application/pdf'',
               certificateImageUrl = ''https://storage.example/Mediseek/cert_a.pdf'',
               dateOfIssue = 1000\<rparr>]\<rparr>"
  have render: "generateCertificate mail_pending_env 0 (example_world\<lparr>ticks := Suc 0\<rparr>)
      ''Ann Lee'' ''cert_a'' ''General Program'' 1000 = (w1, Inr ''PDF Ann Lee'')"
    by (simp add: generateCertificate_def mail_pending_env_def example_env_def example_world_def w1_def)
  have store: "uploadToSupabase mail_pending_env 0 w1 ''PDF Ann Lee'' ''cert_a'' =
      (w2, Inr ''https://storage.example/Mediseek/cert_a.pdf'')"
    by (simp add: uploadToSupabase_def Let_def mail_pending_env_def example_env_def example_world_def
        w1_def w2_def)
  have persist: "save mail_pending_env 0 w2
      \<lparr>certificateId = ''cert_a'', cert_studentName = ''Ann Lee'', cert_email = ''ann@x.com'',
       cert_programName = ''General Program'',
       certificateUrl = ''https://storage.example/Mediseek/cert_a.pdf'',
       certificateFileType = ''application/pdf'',
       certificateImageUrl = ''https://storage.example/Mediseek/cert_a.pdf'',
       dateOfIssue = 1000\<rparr> = (w3, Inr ())"
    by (simp add: save_def mail_pending_env_def example_env_def example_world_def w1_def w2_def w3_def)
  have late: "\<forall>t r. sendMail mail_pending_env 0
      \<lparr>mail_from = EMAIL_USER mail_pending_env, mail_to = ''ann@x.com'', mail_studentName = ''Ann Lee'',
       mail_verificationUrl = ''https://upgradtask-frontend.vercel.app/certificate/'' @ ''cert_a''\<rparr>
      = Settled t r \<longrightarrow> 15000 < t"
    by (simp add: mail_pending_env_def)
  have reach: "processLoop mail_pending_env [] example_world [] [] = (example_world, [], [])"
    by simp
  from sendCertificateEmail_timeout [of mail_pending_env "[]" example_world "[]" "[]"
      example_world "[]" "[]" ann w1 "''PDF Ann Lee''" w2
      "''https://storage.example/Mediseek/cert_a.pdf''" w3 "()" 0 example_world
      "''bo@x.com''" "''Bo''" "''cert_b''" "[bo]"]
    reach render store persist late
  obtain w4 wf pa fa where
      "fst (snd (sendCertificateEmail mail_pending_env 0 example_world ''bo@x.com'' ''Bo'' ''cert_b'')) \<le> 15000"
      "sendCertificateEmail mail_pending_env 0 w3 ''ann@x.com'' ''Ann Lee'' ''cert_a'' =
        (w4, 15000, Inl ''Email send timeout'')"
      "processLoop mail_pending_env [bo] w4 [] [] = (wf, pa, fa)"
      "processLoop mail_pending_env [ann, bo] example_world [] [] =
        (wf, pa,
         \<lparr>f_studentName = ''Ann Lee'', f_email = ''ann@x.com'', f_status = ''Failed'',
           f_error = ''Email send timeout''\<rparr> # fa)"
    unfolding e by auto
  with render store persist show ?thesis
    by (intro exI conjI)
qed

text \<open>
  C6. The send operation is to be bounded by a timeout of 15 units, a timeout being an
  error of that recipient's pass. \<open>sendCertificateEmail\<close> of \<open>src/unnamed/part_000\<close> has
  no timer: with a mail transport that answers after two minutes it settles after two
  minutes, and with one that never answers it never settles and the batch never answers.
  At the same inputs \<open>sendCertificateEmail\<close> of \<open>src/index.js\<close>, which races the
  transport against a timer, settles at 15000 milliseconds with the error
  \<open>Email send timeout\<close>.
\<close>

theorem sendCertificateEmail_part_000_unbounded:
  "sendCertificateEmail_part_000 mail_slow_env 0 example_world ''ann@x.com'' ''Ann Lee'' ''cert_a'' =
     Some (\<lparr>ticks = 0, rendered = [], bucket = [], db = [],
            outbox = [\<lparr>mail_from = ''admin@example.com'', mail_to = ''ann@x.com'',
                       mail_studentName = ''Ann Lee'',
                       mail_verificationUrl =
                         ''https://upgradtask-frontend.vercel.app/certificate/cert_a''\<rparr>]\<rparr>,
           120000, Inl ''Connection timeout'') \<and>
   sendCertificateEmail mail_slow_env 0 example_world ''ann@x.com'' ''Ann Lee'' ''cert_a'' =
     (\<lparr>ticks = 0, rendered = [], bucket = [], db = [],
       outbox = [\<lparr>mail_from = ''admin@example.com'', mail_to = ''ann@x.com'',
                  mail_studentName = ''Ann Lee'',
                  mail_verificationUrl =
                    ''https://upgradtask-frontend.vercel.app/certificate/cert_a''\<rparr>]\<rparr>,
      15000, Inl ''Email send timeout'') \<and>
   sendCertificateEmail_part_000 mail_pending_env 0 example_world ''ann@x.com'' ''Ann Lee'' ''cert_a'' =
     None \<and>
   sendCertificateEmail mail_pending_env 0 example_world ''ann@x.com'' ''Ann Lee'' ''cert_a'' =
     (\<lparr>ticks = 0, rendered = [], bucket = [], db = [],
       outbox = [\<lparr>mail_from = ''admin@example.com'', mail_to = ''ann@x.com'',
                  mail_studentName = ''Ann Lee'',
                  mail_verificationUrl =
                    ''https://upgradtask-frontend.vercel.app/certificate/cert_a''\<rparr>]\<rparr>,
      15000, Inl ''Email send timeout'')"
  by (simp add: sendCertificateEmail_part_000_def sendCertificateEmail_def await_def
      raceTimeout_def Let_def mail_slow_env_def mail_pending_env_def example_env_def
      example_world_def)

text \<open>The variant without the timer settles later than 15000 milliseconds.\<close>

theorem sendCertificateEmail_part_000_unbounded_witness:
  "\<exists>w' t r. sendCertificateEmail_part_000 mail_slow_env 0 example_world ''ann@x.com'' ''Ann Lee''
       ''cert_a'' = Some (w', t, r) \<and> 15000 < t"
  using sendCertificateEmail_part_000_unbounded by simp

lemma upload_csv_end:
  assumes "endsWith (originalname f) ''.csv''" and "csv f = CsvEnd rows"
    and "onData rows [] [] = Inr (results, errors)"
  shows "upload_csv env w (Some f) =
    (if length results = 0
     then (w, Status400 ''No valid records found in CSV'' (Some errors))
     else (case processLoop env results w [] [] of
       (w', ps, fs) \<Rightarrow>
         (w', Status200
            \<lparr>summary = \<lparr>totalRecords = length results, successfullyProcessed = length ps,
                          summary_failed = length fs\<rparr>,
             processed = ps, failed = fs, csvValidationErrors = errors\<rparr>)))"
  using assms by (simp add: upload_csv_def)

lemma upload_csv_other:
  "upload_csv env w None = (w, Status400 ''No file uploaded'' None)"
  "\<not> endsWith (originalname f) ''.csv'' \<Longrightarrow>
     upload_csv env w (Some f) = (w, Status400 ''File must be a CSV file'' None)"
  "endsWith (originalname f) ''.csv'' \<Longrightarrow> csv f = CsvError rows msg \<Longrightarrow>
     upload_csv env w (Some f) = (w, Status400 (''CSV parsing failed: '' @ msg) None)"
proof -
  show "upload_csv env w None = (w, Status400 ''No file uploaded'' None)"
    by (simp add: upload_csv_def)
  show "\<not> endsWith (originalname f) ''.csv'' \<Longrightarrow>
      upload_csv env w (Some f) = (w, Status400 ''File must be a CSV file'' None)"
    by (simp add: upload_csv_def)
  assume a: "endsWith (originalname f) ''.csv''" "csv f = CsvError rows msg"
  obtain res where "onData rows [] [] = Inr res"
    using onData_total [of rows "[]" "[]"] by (elim exE)
  with a show "upload_csv env w (Some f) = (w, Status400 (''CSV parsing failed: '' @ msg) None)"
    by (simp add: upload_csv_def)
qed

lemma passSucceeds_step:
  assumes "passSucceeds env w s"
  shows "\<exists>w' p. processStudent env w s = (w', Inr p) \<and>
           p_studentName p = studentName s \<and> p_email p = email s \<and>
           p_certificateId p = ''cert_'' @ uuidv4 env (ticks w) \<and>
           ticks w' = Suc (ticks w) \<and>
           map certificateId (db w') = map certificateId (db w) @ [p_certificateId p] \<and>
           p_certificateId p \<notin> set (map certificateId (db w))"
proof -
  let ?i = "ticks w"
  let ?cid = "''cert_'' @ uuidv4 env ?i"
  obtain w1 r1 where g: "generateCertificate env ?i (w\<lparr>ticks := Suc ?i\<rparr>) (studentName s) ?cid
      (programName s) (newDate env ?i) = (w1, r1)"
    by (cases "generateCertificate env ?i (w\<lparr>ticks := Suc ?i\<rparr>) (studentName s) ?cid
      (programName s) (newDate env ?i)")
  with assms obtain buf where r1: "r1 = Inr buf"
    by (cases r1) (simp_all add: passSucceeds_def Let_def)
  obtain w2 r2 where up: "uploadToSupabase env ?i w1 buf ?cid = (w2, r2)"
    by (cases "uploadToSupabase env ?i w1 buf ?cid")
  with assms g r1 obtain url where r2: "r2 = Inr url"
    by (cases r2) (simp_all add: passSucceeds_def Let_def)
  let ?cert = "\<lparr>certificateId = ?cid, cert_studentName = studentName s,
      cert_email = email s, cert_programName = programName s, certificateUrl = url,
      certificateFileType = ''application/pdf'', certificateImageUrl = url,
      dateOfIssue = newDate env ?i\<rparr>"
  obtain w3 r3 where sv: "save env ?i w2 ?cert = (w3, r3)"
    by (cases "save env ?i w2 ?cert")
  with assms g r1 up r2 obtain u where r3: "r3 = Inr u"
    by (cases r3) (simp_all add: passSucceeds_def Let_def)
  obtain w4 t r4 where ml: "sendCertificateEmail env ?i w3 (email s) (studentName s) ?cid = (w4, t, r4)"
    by (cases "sendCertificateEmail env ?i w3 (email s) (studentName s) ?cid")
  with assms g r1 up r2 sv r3 obtain u' where r4: "r4 = Inr u'"
    by (cases r4) (simp_all add: passSucceeds_def Let_def)
  note render = g [unfolded r1]
  note store = up [unfolded r2]
  note persist = sv [unfolded r3]
  note notify = ml [unfolded r4]
  have step: "processStudent env w s =
      (w4, Inr \<lparr>p_studentName = studentName s, p_email = email s, p_certificateId = ?cid,
                p_status = ''Success'', p_certificateUrl = url\<rparr>)"
    using render store persist notify by (rule processStudent_succeeded)
  have w1: "w1 = w\<lparr>ticks := Suc ?i, rendered := rendered w @ [?cid]\<rparr>"
    using generateCertificate_world [OF render] by simp
  have w2: "w2 = w1\<lparr>bucket := bucket w1 @ [(''Mediseek/'' @ ?cid @ ''.pdf'', buf)]\<rparr>"
    using uploadToSupabase_ok_world [OF store] by simp
  have w3: "w3 = w2\<lparr>db := db w2 @ [?cert]\<rparr>"
    using persist by (rule save_world)
  have fresh: "?cid \<notin> set (map certificateId (db w2))"
    using save_fresh [OF persist] by simp
  have w4: "ticks w4 = ticks w3" "db w4 = db w3"
    using sendCertificateEmail_world [OF notify] by simp_all
  have "ticks w4 = Suc ?i"
    using w4(1) by (simp add: w3 w2 w1)
  moreover have "map certificateId (db w4) = map certificateId (db w) @ [?cid]"
    using w4(2) by (simp add: w3 w2 w1)
  moreover have "?cid \<notin> set (map certificateId (db w))"
    using fresh by (simp add: w2 w1)
  ultimately show ?thesis
    using step by simp
qed

lemma processLoop_allStepsSucceed:
  assumes "allStepsSucceed env w results"
  shows "\<exists>w' ps. processLoop env results w [] [] = (w', ps, []) \<and>
           map p_studentName ps = map studentName results \<and>
           map p_email ps = map email results \<and>
           map p_certificateId ps =
             map (\<lambda>k. ''cert_'' @ uuidv4 env k) [ticks w ..< ticks w + length results] \<and>
           distinct (map p_certificateId ps) \<and>
           set (map p_certificateId ps) \<inter> set (map certificateId (db w)) = {} \<and>
           ticks w' = ticks w + length results \<and>
           map certificateId (db w') = map certificateId (db w) @ map p_certificateId ps"
  using assms
proof (induction results arbitrary: w)
  case Nil
  show ?case by simp
next
  case (Cons s rest)
  from Cons.prems have pass: "passSucceeds env w s"
      and later: "allStepsSucceed env (fst (processStudent env w s)) rest"
    by simp_all
  from passSucceeds_step [OF pass]
  obtain w1 p where step: "processStudent env w s = (w1, Inr p)"
      and p: "p_studentName p = studentName s" "p_email p = email s"
        "p_certificateId p = ''cert_'' @ uuidv4 env (ticks w)"
      and w1: "ticks w1 = Suc (ticks w)"
        "map certificateId (db w1) = map certificateId (db w) @ [p_certificateId p]"
      and fresh: "p_certificateId p \<notin> set (map certificateId (db w))"
    by (elim exE conjE)
  from later step have "allStepsSucceed env w1 rest"
    by simp
  from Cons.IH [OF this]
  obtain w' pa where rest: "processLoop env rest w1 [] [] = (w', pa, [])"
      and pa: "map p_studentName pa = map studentName rest" "map p_email pa = map email rest"
        "map p_certificateId pa =
           map (\<lambda>k. ''cert_'' @ uuidv4 env k) [ticks w1 ..< ticks w1 + length rest]"
      and apart: "distinct (map p_certificateId pa)"
        "set (map p_certificateId pa) \<inter> set (map certificateId (db w1)) = {}"
      and w': "ticks w' = ticks w1 + length rest"
        "map certificateId (db w') = map certificateId (db w1) @ map p_certificateId pa"
    by (elim exE conjE)
  have loop: "processLoop env (s # rest) w [] [] = (w', p # pa, [])"
    using step rest processLoop_acc [of env rest w1 "[p]" "[]"] by simp
  have total: "ticks w + length (s # rest) = ticks w1 + length rest"
    using w1(1) by simp
  have "ticks w < ticks w1 + length rest"
    using w1(1) by simp
  then have "[ticks w ..< ticks w1 + length rest] =
      ticks w # [Suc (ticks w) ..< ticks w1 + length rest]"
    by (rule upt_conv_Cons)
  then have range: "[ticks w ..< ticks w + length (s # rest)] =
      ticks w # [ticks w1 ..< ticks w1 + length rest]"
    by (simp only: total w1(1))
  have ids: "map p_certificateId (p # pa) =
      map (\<lambda>k. ''cert_'' @ uuidv4 env k) [ticks w ..< ticks w + length (s # rest)]"
    unfolding range using p(3) pa(3) by simp
  have names: "map p_studentName (p # pa) = map studentName (s # rest)"
      "map p_email (p # pa) = map email (s # rest)"
    using p pa by simp_all
  have "p_certificateId p \<notin> set (map p_certificateId pa)"
    using apart(2) w1(2) by auto
  with apart(1) have distinct: "distinct (map p_certificateId (p # pa))"
    by simp
  have disjoint: "set (map p_certificateId (p # pa)) \<inter> set (map certificateId (db w)) = {}"
    using apart(2) w1(2) fresh by auto
  have ticks: "ticks w' = ticks w + length (s # rest)"
    using w' w1 by simp
  have saved: "map certificateId (db w') = map certificateId (db w) @ map p_certificateId (p # pa)"
    using w'(2) w1(2) by simp
  from loop names ids distinct disjoint ticks saved show ?case
    by (intro exI conjI)
qed

text \<open>
  C9. When every step succeeds for every valid recipient of a file, the report has no
  failed entry and one processed entry for each valid recipient, in the order of the rows
  of the file, with the name and the address of that recipient. The entry of the \<open>k\<close>-th
  valid recipient carries the identifier generated at its pass, and one document with
  that identifier is added to the collection for each entry. The identifiers of the
  entries differ from one another and from every identifier that the collection held
  before: a document is saved only when the collection, whose index on the identifier is
  unique, does not hold its identifier. A recipient who is in the file twice is processed
  twice, with two identifiers and two documents: nothing is deduplicated.
\<close>

theorem all_succeed_in_order:
  assumes name: "endsWith (originalname f) ''.csv''"
    and rows: "csv f = CsvEnd rows"
    and valid: "validStudents rows \<noteq> []"
    and ok: "allStepsSucceed env w (validStudents rows)"
  shows "\<exists>w' b. upload_csv env w (Some f) = (w', Status200 b) \<and>
           failed b = [] \<and>
           map p_studentName (processed b) = map studentName (validStudents rows) \<and>
           map p_email (processed b) = map email (validStudents rows) \<and>
           map p_certificateId (processed b) =
             map (\<lambda>k. ''cert_'' @ uuidv4 env k)
               [ticks w ..< ticks w + length (validStudents rows)] \<and>
           distinct (map p_certificateId (processed b)) \<and>
           set (map p_certificateId (processed b)) \<inter> set (map certificateId (db w)) = {} \<and>
           map certificateId (db w') =
             map certificateId (db w) @ map p_certificateId (processed b)"
proof -
  from processLoop_allStepsSucceed [OF ok]
  obtain w' ps where loop: "processLoop env (validStudents rows) w [] [] = (w', ps, [])"
      and ps: "map p_studentName ps = map studentName (validStudents rows)"
        "map p_email ps = map email (validStudents rows)"
        "map p_certificateId ps =
           map (\<lambda>k. ''cert_'' @ uuidv4 env k) [ticks w ..< ticks w + length (validStudents rows)]"
        "distinct (map p_certificateId ps)"
        "set (map p_certificateId ps) \<inter> set (map certificateId (db w)) = {}"
      and saved: "map certificateId (db w') = map certificateId (db w) @ map p_certificateId ps"
    by (elim exE conjE)
  have parsed: "onData rows [] [] = Inr (validStudents rows, invalidRows rows)"
    using onData_eq [of rows "[]" "[]"] by simp
  let ?b = "\<lparr>summary = \<lparr>totalRecords = length (validStudents rows),
        successfullyProcessed = length ps, summary_failed = length ([] :: failedCertificate list)\<rparr>,
      processed = ps, failed = [], csvValidationErrors = invalidRows rows\<rparr>"
  have resp: "upload_csv env w (Some f) = (w', Status200 ?b)"
    using upload_csv_end [OF name rows parsed, of env w] valid loop by simp
  have "failed ?b = []" "processed ?b = ps"
    by simp_all
  with resp ps saved show ?thesis
    by (intro exI [of _ w'] exI [of _ ?b] conjI) simp_all
qed

text \<open>
  A file in which the same recipient is submitted twice, with an invalid row in between,
  in the environment whose bucket refuses another student's document.
\<close>

theorem all_succeed_in_order_witness:
  "\<exists>w' b. upload_csv upload_denied_env example_world
       (Some \<lparr>originalname = ''students.csv'',
              csv = CsvEnd [[(''Name'', ''Ann Lee''), (''Email'', ''ann@x.com'')],
                            [(''Name'', ''Cy''), (''Email'', ''not-an-email'')],
                            [(''Name'', ''Cy''), (''Email'', ''cy@x.com'')],
                            [(''Name'', ''Ann Lee''), (''Email'', ''ann@x.com'')]]\<rparr>) =
       (w', Status200 b) \<and>
     failed b = [] \<and>
     map p_studentName (processed b) = [''Ann Lee'', ''Cy'', ''Ann Lee''] \<and>
     map p_email (processed b) = [''ann@x.com'', ''cy@x.com'', ''ann@x.com''] \<and>
     map p_certificateId (processed b) = [''cert_a'', ''cert_aa'', ''cert_aaa''] \<and>
     distinct (map p_certificateId (processed b)) \<and>
     map certificateId (db w') = map p_certificateId (processed b)"
proof -
  let ?rows = "[[(''Name'', ''Ann Lee''), (''Email'', ''ann@x.com'')],
      [(''Name'', ''Cy''), (''Email'', ''not-an-email'')],
      [(''Name'', ''Cy''), (''Email'', ''cy@x.com'')],
      [(''Name'', ''Ann Lee''), (''Email'', ''ann@x.com'')]]"
  let ?f = "\<lparr>originalname = ''students.csv'', csv = CsvEnd ?rows\<rparr>"
  let ?ann = "\<lparr>studentName = ''Ann Lee'', email = ''ann@x.com'', programName = ''General Program''\<rparr>"
  let ?cy = "\<lparr>studentName = ''Cy'', email = ''cy@x.com'', programName = ''General Program''\<rparr>"
  have name: "endsWith (originalname ?f) ''.csv''"
    by code_simp
  have rows: "csv ?f = CsvEnd ?rows"
    by simp
  have students: "validStudents ?rows = [?ann, ?cy, ?ann]"
    by code_simp
  have valid: "validStudents ?rows \<noteq> []"
    unfolding students by simp
  have "allStepsSucceed upload_denied_env example_world [?ann, ?cy, ?ann]"
    by code_simp
  then have ok: "allStepsSucceed upload_denied_env example_world (validStudents ?rows)"
    by (simp only: students)
  have upt: "[ticks example_world ..< ticks example_world + length [?ann, ?cy, ?ann]] = [0, 1, 2]"
    by code_simp
  have ids: "map (\<lambda>k. ''cert_'' @ uuidv4 upload_denied_env k) [0, 1, 2] =
      [''cert_a'', ''cert_aa'', ''cert_aaa'']"
    by code_simp
  have start: "map certificateId (db example_world) = []"
    by (simp add: example_world_def)
  from all_succeed_in_order [OF name rows valid ok]
  obtain w' b where resp: "upload_csv upload_denied_env example_world (Some ?f) = (w', Status200 b)"
      and none: "failed b = []"
      and f: "map p_studentName (processed b) = map studentName (validStudents ?rows)"
        "map p_email (processed b) = map email (validStudents ?rows)"
        "map p_certificateId (processed b) = map (\<lambda>k. ''cert_'' @ uuidv4 upload_denied_env k)
           [ticks example_world ..< ticks example_world + length (validStudents ?rows)]"
      and apart: "distinct (map p_certificateId (processed b))"
      and saved: "map certificateId (db w') =
          map certificateId (db example_world) @ map p_certificateId (processed b)"
    by (elim exE conjE)
  have "map p_studentName (processed b) = [''Ann Lee'', ''Cy'', ''Ann Lee'']"
    using f(1) unfolding students by simp
  moreover have "map p_email (processed b) = [''ann@x.com'', ''cy@x.com'', ''ann@x.com'']"
    using f(2) unfolding students by simp
  moreover have "map p_certificateId (processed b) = [''cert_a'', ''cert_aa'', ''cert_aaa'']"
    using f(3) unfolding students upt ids .
  moreover have "map certificateId (db w') = map p_certificateId (processed b)"
    using saved unfolding start by simp
  ultimately show ?thesis
    using resp none apart by (intro exI [of _ w'] exI [of _ b] conjI)
qed

text \<open>No exception escapes the \<open>data\<close> listener: the route always answers.\<close>

lemma upload_csv_never_uncaught: "snd (upload_csv env w req) \<noteq> Uncaught ex"
proof (cases req)
  case None
  then show ?thesis by (simp add: upload_csv_other(1))
next
  case (Some f)
  show ?thesis
  proof (cases "endsWith (originalname f) ''.csv''")
    case False
    with Some show ?thesis by (simp add: upload_csv_other(2))
  next
    case name: True
    show ?thesis
    proof (cases "csv f")
      case (CsvError rows m)
      with Some name show ?thesis by (simp add: upload_csv_other(3))
    next
      case (CsvEnd rows)
      obtain results errs where parsed: "onData rows [] [] = Inr (results, errs)"
        using onData_total [of rows "[]" "[]"] by auto
      obtain wf ps fs where loop: "processLoop env results w [] [] = (wf, ps, fs)"
        by (cases "processLoop env results w [] []")
      from upload_csv_end [OF name CsvEnd parsed, of env w] Some loop show ?thesis
        by (simp split: if_splits)
    qed
  qed
qed

lemma classes_length:
  "length (invalidOf cs) + length (succeededOf cs) + length (failedOf cs) = length cs"
proof (induction cs)
  case Nil
  show ?case by simp
next
  case (Cons c cs)
  then show ?case by (cases c) simp_all
qed

lemma processLoop_classifies:
  assumes "processLoop env (validStudents rows) w ps fs = (w', ps', fs')"
  shows "\<exists>cs. list_all2 classifies rows cs \<and> invalidOf cs = invalidRows rows \<and>
           ps' = ps @ succeededOf cs \<and> fs' = fs @ failedOf cs"
  using assms
proof (induction rows arbitrary: w ps fs)
  case Nil
  then have "ps' = ps @ succeededOf [] \<and> fs' = fs @ failedOf []"
    by simp
  then show ?case
    by (intro exI [of _ "[]"] conjI) simp_all
next
  case (Cons r rows)
  obtain v where v: "validateCsvRow r = Inr v"
    using validateCsvRow_cases [of r] by (rule exI [THEN exE])
  show ?case
  proof (cases v)
    case (Invalid msg)
    with v Cons.prems have "processLoop env (validStudents rows) w ps fs = (w', ps', fs')"
      by simp
    from Cons.IH [OF this]
    obtain cs where cs: "list_all2 classifies rows cs" "invalidOf cs = invalidRows rows"
        "ps' = ps @ succeededOf cs" "fs' = fs @ failedOf cs"
      by (elim exE conjE)
    let ?c = "IsInvalid \<lparr>e_row = r, e_error = msg\<rparr>"
    have "classifies r ?c"
      using v Invalid by simp
    with cs(1) have "list_all2 classifies (r # rows) (?c # cs)"
      by simp
    moreover have "invalidOf (?c # cs) = invalidRows (r # rows)"
      using v Invalid cs(2) by simp
    moreover have "ps' = ps @ succeededOf (?c # cs)" "fs' = fs @ failedOf (?c # cs)"
      using cs(3,4) by simp_all
    ultimately show ?thesis
      by (intro exI [of _ "?c # cs"] conjI)
  next
    case (Valid d)
    obtain w1 res where step: "processStudent env w d = (w1, res)"
      by (cases "processStudent env w d")
    show ?thesis
    proof (cases res)
      case (Inl f)
      with v Valid step Cons.prems
      have "processLoop env (validStudents rows) w1 ps (fs @ [f]) = (w', ps', fs')"
        by simp
      from Cons.IH [OF this]
      obtain cs where cs: "list_all2 classifies rows cs" "invalidOf cs = invalidRows rows"
          "ps' = ps @ succeededOf cs" "fs' = (fs @ [f]) @ failedOf cs"
        by (elim exE conjE)
      have "f_studentName f = studentName d \<and> f_email f = email d"
        using step Inl by (intro processStudent_entry(1)) simp
      with v Valid have "classifies r (IsFailed f)"
        by simp
      with cs(1) have "list_all2 classifies (r # rows) (IsFailed f # cs)"
        by simp
      moreover have "invalidOf (IsFailed f # cs) = invalidRows (r # rows)"
        using v Valid cs(2) by simp
      moreover have "ps' = ps @ succeededOf (IsFailed f # cs)"
          "fs' = fs @ failedOf (IsFailed f # cs)"
        using cs(3,4) by simp_all
      ultimately show ?thesis
        by (intro exI [of _ "IsFailed f # cs"] conjI)
    next
      case (Inr p)
      with v Valid step Cons.prems
      have "processLoop env (validStudents rows) w1 (ps @ [p]) fs = (w', ps', fs')"
        by simp
      from Cons.IH [OF this]
      obtain cs where cs: "list_all2 classifies rows cs" "invalidOf cs = invalidRows rows"
          "ps' = (ps @ [p]) @ succeededOf cs" "fs' = fs @ failedOf cs"
        by (elim exE conjE)
      have "p_studentName p = studentName d \<and> p_email p = email d"
        using step Inr by (intro processStudent_entry(2)) simp
      with v Valid have "classifies r (IsSucceeded p)"
        by simp
      with cs(1) have "list_all2 classifies (r # rows) (IsSucceeded p # cs)"
        by simp
      moreover have "invalidOf (IsSucceeded p # cs) = invalidRows (r # rows)"
        using v Valid cs(2) by simp
      moreover have "ps' = ps @ succeededOf (IsSucceeded p # cs)"
          "fs' = fs @ failedOf (IsSucceeded p # cs)"
        using cs(3,4) by simp_all
      ultimately show ?thesis
        by (intro exI [of _ "IsSucceeded p # cs"] conjI)
    qed
  qed
qed

lemma upload_csv_report:
  assumes name: "endsWith (originalname f) ''.csv''" and rows: "csv f = CsvEnd rows"
  shows "\<exists>w' ps fs cs.
     processLoop env (validStudents rows) w [] [] = (w', ps, fs) \<and>
     list_all2 classifies rows cs \<and> invalidOf cs = invalidRows rows \<and>
     ps = succeededOf cs \<and> fs = failedOf cs \<and>
     length ps + length fs = length (validStudents rows) \<and>
     length (validStudents rows) + length (invalidRows rows) = length rows \<and>
     upload_csv env w (Some f) =
       (if validStudents rows = []
        then (w, Status400 ''No valid records found in CSV'' (Some (invalidRows rows)))
        else (w', Status200
               \<lparr>summary = \<lparr>totalRecords = length (validStudents rows),
                             successfullyProcessed = length ps, summary_failed = length fs\<rparr>,
                processed = ps, failed = fs, csvValidationErrors = invalidRows rows\<rparr>))"
proof -
  obtain w' ps fs where loop: "processLoop env (validStudents rows) w [] [] = (w', ps, fs)"
    by (cases "processLoop env (validStudents rows) w [] []")
  from processLoop_classifies [OF loop]
  obtain cs where cs: "list_all2 classifies rows cs" "invalidOf cs = invalidRows rows"
      "ps = succeededOf cs" "fs = failedOf cs"
    by auto
  from processLoop_length [OF loop] have valid: "length ps + length fs = length (validStudents rows)"
    by simp
  from cs(1) have "length cs = length rows"
    by (simp add: list_all2_lengthD)
  with classes_length [of cs] cs(2,3,4) valid
  have total: "length (validStudents rows) + length (invalidRows rows) = length rows"
    by simp
  have parsed: "onData rows [] [] = Inr (validStudents rows, invalidRows rows)"
    using onData_eq [of rows "[]" "[]"] by simp
  have resp: "upload_csv env w (Some f) =
      (if validStudents rows = []
       then (w, Status400 ''No valid records found in CSV'' (Some (invalidRows rows)))
       else (w', Status200
              \<lparr>summary = \<lparr>totalRecords = length (validStudents rows),
                            successfullyProcessed = length ps, summary_failed = length fs\<rparr>,
               processed = ps, failed = fs, csvValidationErrors = invalidRows rows\<rparr>))"
    using upload_csv_end [OF name rows parsed, of env w] loop by simp
  from loop cs valid total resp show ?thesis
    by (intro exI [of _ w'] exI [of _ ps] exI [of _ fs] exI [of _ cs] conjI)
qed

text \<open>
  C3. Every row of the file is classified into exactly one of invalid, succeeded and
  failed, and none is dropped: for every report (status 200) there is one class for each
  row, in the order of the rows, an invalid row with its validation error and a valid row
  with a processed or a failed entry for the recipient of that row, such that the
  validation errors, the processed entries and the failed entries of the report are
  exactly the entries of each class, in order. So the processed and the failed entries
  together are as many as the valid rows, the counts of the summary are the lengths of the
  two lists, and the valid rows and the validation errors together are as many as the
  rows. When no row is valid, the response (status 400) carries the validation errors of
  such a classification, in which no row is succeeded or failed.
\<close>

theorem upload_csv_classifies_rows:
  "(upload_csv env w req = (w', Status200 b) \<longrightarrow>
      (\<exists>f rows cs. req = Some f \<and> csv f = CsvEnd rows \<and>
         list_all2 classifies rows cs \<and>
         csvValidationErrors b = invalidOf cs \<and> processed b = succeededOf cs \<and>
         failed b = failedOf cs \<and>
         length (processed b) + length (failed b) = totalRecords (summary b) \<and>
         successfullyProcessed (summary b) = length (processed b) \<and>
         summary_failed (summary b) = length (failed b) \<and>
         totalRecords (summary b) + length (csvValidationErrors b) = length rows)) \<and>
   (upload_csv env w req = (w', Status400 msg (Some errors)) \<longrightarrow>
      (\<exists>f rows cs. req = Some f \<and> csv f = CsvEnd rows \<and>
         list_all2 classifies rows cs \<and> errors = invalidOf cs \<and>
         succeededOf cs = [] \<and> failedOf cs = [] \<and> length errors = length rows))"
proof (cases req)
  case None
  then show ?thesis by (simp add: upload_csv_other(1))
next
  case (Some f)
  show ?thesis
  proof (cases "endsWith (originalname f) ''.csv''")
    case False
    with Some show ?thesis by (simp add: upload_csv_other(2))
  next
    case name: True
    show ?thesis
    proof (cases "csv f")
      case (CsvError rows m)
      with Some name show ?thesis by (simp add: upload_csv_other(3))
    next
      case (CsvEnd rows)
      from upload_csv_report [OF name CsvEnd, of env w]
      obtain wf ps fs cs where loop: "processLoop env (validStudents rows) w [] [] = (wf, ps, fs)"
          and cs: "list_all2 classifies rows cs" "invalidOf cs = invalidRows rows"
            "ps = succeededOf cs" "fs = failedOf cs"
          and n: "length ps + length fs = length (validStudents rows)"
            "length (validStudents rows) + length (invalidRows rows) = length rows"
          and resp: "upload_csv env w (Some f) =
            (if validStudents rows = []
             then (w, Status400 ''No valid records found in CSV'' (Some (invalidRows rows)))
             else (wf, Status200
                    \<lparr>summary = \<lparr>totalRecords = length (validStudents rows),
                                  successfullyProcessed = length ps, summary_failed = length fs\<rparr>,
                     processed = ps, failed = fs, csvValidationErrors = invalidRows rows\<rparr>))"
        by (elim exE conjE)
      show ?thesis
      proof (cases "validStudents rows = []")
        case True
        with loop have "ps = []" "fs = []"
          by simp_all
        with cs have none: "succeededOf cs = []" "failedOf cs = []"
          by simp_all
        from True n(2) have "length (invalidRows rows) = length rows"
          by simp
        with True resp Some CsvEnd cs(1,2) none show ?thesis
          by auto
      next
        case False
        with resp Some CsvEnd cs n show ?thesis
          by auto
      qed
    qed
  qed
qed

text \<open>
  A file of three rows: one student is processed, one row is invalid, and the upload fails
  for one student; and a file of two invalid rows.
\<close>

theorem upload_csv_classifies_rows_witness:
  "(\<exists>w' b cs. upload_csv upload_denied_env example_world
       (Some \<lparr>originalname = ''students.csv'',
              csv = CsvEnd [[(''Name'', ''Ann Lee''), (''Email'', ''ann@x.com'')],
                            [(''Name'', ''''), (''Email'', ''a@b.com'')],
                            [(''Name'', ''Bo''), (''Email'', ''bo@x.com'')]]\<rparr>) = (w', Status200 b) \<and>
     list_all2 classifies [[(''Name'', ''Ann Lee''), (''Email'', ''ann@x.com'')],
                           [(''Name'', ''''), (''Email'', ''a@b.com'')],
                           [(''Name'', ''Bo''), (''Email'', ''bo@x.com'')]] cs \<and>
     csvValidationErrors b = invalidOf cs \<and> processed b = succeededOf cs \<and>
     failed b = failedOf cs \<and>
     map p_studentName (processed b) = [''Ann Lee''] \<and> map f_studentName (failed b) = [''Bo''] \<and>
     map e_row (csvValidationErrors b) = [[(''Name'', ''''), (''Email'', ''a@b.com'')]] \<and>
     length (processed b) + length (failed b) = totalRecords (summary b) \<and>
     successfullyProcessed (summary b) = length (processed b) \<and>
     summary_failed (summary b) = length (failed b) \<and>
     totalRecords (summary b) + length (csvValidationErrors b) = 3) \<and>
   (\<exists>w'' errors cs. upload_csv example_env example_world
       (Some \<lparr>originalname = ''students.csv'',
              csv = CsvEnd [[(''Name'', ''''), (''Email'', ''a@b.com'')],
                            [(''Name'', ''Bo''), (''Email'', ''not-an-email'')]]\<rparr>) =
       (w'', Status400 ''No valid records found in CSV'' (Some errors)) \<and>
     list_all2 classifies [[(''Name'', ''''), (''Email'', ''a@b.com'')],
                           [(''Name'', ''Bo''), (''Email'', ''not-an-email'')]] cs \<and>
     errors = invalidOf cs \<and> succeededOf cs = [] \<and> failedOf cs = [] \<and> length errors = 2)"
proof -
  let ?rows = "[[(''Name'', ''Ann Lee''), (''Email'', ''ann@x.com'')],
      [(''Name'', ''''), (''Email'', ''a@b.com'')],
      [(''Name'', ''Bo''), (''Email'', ''bo@x.com'')]]"
  let ?req = "Some \<lparr>originalname = ''students.csv'', csv = CsvEnd ?rows\<rparr>"
  have "case upload_csv upload_denied_env example_world ?req of
      (w', Status200 b) \<Rightarrow> map p_studentName (processed b) = [''Ann Lee''] \<and>
        map f_studentName (failed b) = [''Bo''] \<and>
        map e_row (csvValidationErrors b) = [[(''Name'', ''''), (''Email'', ''a@b.com'')]]
    | _ \<Rightarrow> False"
    by code_simp
  then obtain w' b where resp: "upload_csv upload_denied_env example_world ?req = (w', Status200 b)"
      and n: "map p_studentName (processed b) = [''Ann Lee'']"
        "map f_studentName (failed b) = [''Bo'']"
        "map e_row (csvValidationErrors b) = [[(''Name'', ''''), (''Email'', ''a@b.com'')]]"
    by (auto split: prod.splits response.splits)
  from upload_csv_classifies_rows [of upload_denied_env example_world ?req w' b] resp
  obtain cs where "list_all2 classifies ?rows cs"
      "csvValidationErrors b = invalidOf cs" "processed b = succeededOf cs"
      "failed b = failedOf cs"
      "length (processed b) + length (failed b) = totalRecords (summary b)"
      "successfullyProcessed (summary b) = length (processed b)"
      "summary_failed (summary b) = length (failed b)"
      "totalRecords (summary b) + length (csvValidationErrors b) = 3"
    by auto
  with resp n have first: "\<exists>w' b cs. upload_csv upload_denied_env example_world ?req = (w', Status200 b) \<and>
      list_all2 classifies ?rows cs \<and>
      csvValidationErrors b = invalidOf cs \<and> processed b = succeededOf cs \<and>
      failed b = failedOf cs \<and>
      map p_studentName (processed b) = [''Ann Lee''] \<and> map f_studentName (failed b) = [''Bo''] \<and>
      map e_row (csvValidationErrors b) = [[(''Name'', ''''), (''Email'', ''a@b.com'')]] \<and>
      length (processed b) + length (failed b) = totalRecords (summary b) \<and>
      successfullyProcessed (summary b) = length (processed b) \<and>
      summary_failed (summary b) = length (failed b) \<and>
      totalRecords (summary b) + length (csvValidationErrors b) = 3"
    by (intro exI [of _ w'] exI [of _ b] exI [of _ cs] conjI)
  let ?rows2 = "[[(''Name'', ''''), (''Email'', ''a@b.com'')],
      [(''Name'', ''Bo''), (''Email'', ''not-an-email'')]]"
  let ?req2 = "Some \<lparr>originalname = ''students.csv'', csv = CsvEnd ?rows2\<rparr>"
  have "case upload_csv example_env example_world ?req2 of
      (w'', Status400 msg (Some errors)) \<Rightarrow> msg = ''No valid records found in CSV''
    | _ \<Rightarrow> False"
    by code_simp
  then obtain w'' errors where resp2: "upload_csv example_env example_world ?req2 =
      (w'', Status400 ''No valid records found in CSV'' (Some errors))"
    by (auto split: prod.splits response.splits option.splits)
  from upload_csv_classifies_rows [of example_env example_world ?req2 w'' _
      "''No valid records found in CSV''" errors] resp2
  obtain cs2 where "list_all2 classifies ?rows2 cs2" "errors = invalidOf cs2"
      "succeededOf cs2 = []" "failedOf cs2 = []" "length errors = 2"
    by auto
  with resp2 have second: "\<exists>w'' errors cs. upload_csv example_env example_world ?req2 =
      (w'', Status400 ''No valid records found in CSV'' (Some errors)) \<and>
      list_all2 classifies ?rows2 cs \<and>
      errors = invalidOf cs \<and> succeededOf cs = [] \<and> failedOf cs = [] \<and> length errors = 2"
    by (intro exI [of _ w''] exI [of _ errors] exI [of _ cs2] conjI)
  from first second show ?thesis
    by (rule conjI)
qed

text \<open>
  C10. When no row of the file passes validation, the response is status 400 with the
  error \<open>No valid records found in CSV\<close> and the validation errors, one for each row in
  the order of the file, each with the reason of the validator; the state is unchanged:
  no identifier is generated, no certificate is rendered, nothing is uploaded or saved and
  no message is sent.
\<close>

theorem no_valid_rows_rejected:
  assumes name: "endsWith (originalname f) ''.csv''"
    and rows: "csv f = CsvEnd rows"
    and invalid: "\<forall>r \<in> set rows. \<exists>msg. validateCsvRow r = Inr (Invalid msg)"
  shows "\<exists>errors. upload_csv env w (Some f) =
             (w, Status400 ''No valid records found in CSV'' (Some errors)) \<and>
           map e_row errors = rows \<and>
           (\<forall>e \<in> set errors. validateCsvRow (e_row e) = Inr (Invalid (e_error e)))"
proof -
  from onData_all_invalid [OF invalid, of "[]" "[]"]
  obtain errs where errs: "onData rows [] [] = Inr ([], errs)" "map e_row errs = rows"
      "\<forall>e \<in> set errs. validateCsvRow (e_row e) = Inr (Invalid (e_error e))"
    by auto
  have "upload_csv env w (Some f) = (w, Status400 ''No valid records found in CSV'' (Some errs))"
    using upload_csv_end [OF name rows errs(1), of env w] by simp
  with errs(2,3) show ?thesis
    by (intro exI conjI)
qed

text \<open>A file of two rows, one without a name and one with a malformed address.\<close>

theorem no_valid_rows_rejected_witness:
  "\<exists>errors. upload_csv example_env example_world
       (Some \<lparr>originalname = ''students.csv'',
              csv = CsvEnd [[(''Name'', ''''), (''Email'', ''a@b.com'')],
                            [(''Name'', ''Bo''), (''Email'', ''not-an-email'')]]\<rparr>) =
       (example_world, Status400 ''No valid records found in CSV'' (Some errors)) \<and>
     map e_row errors = [[(''Name'', ''''), (''Email'', ''a@b.com'')],
                         [(''Name'', ''Bo''), (''Email'', ''not-an-email'')]] \<and>
     map e_error errors = [''Missing required fields: Name and Email'',
                           ''Invalid email format: not-an-email'']"
proof -
  let ?b = "[(''Name'', ''''), (''Email'', ''a@b.com'')]"
  let ?c = "[(''Name'', ''Bo''), (''Email'', ''not-an-email'')]"
  let ?f = "\<lparr>originalname = ''students.csv'', csv = CsvEnd [?b, ?c]\<rparr>"
  have name: "endsWith (originalname ?f) ''.csv''"
    by code_simp
  have rows: "csv ?f = CsvEnd [?b, ?c]"
    by simp
  have vb: "validateCsvRow ?b = Inr (Invalid ''Missing required fields: Name and Email'')"
    by code_simp
  have vc: "validateCsvRow ?c = Inr (Invalid ''Invalid email format: not-an-email'')"
    by code_simp
  have invalid: "\<forall>r \<in> set [?b, ?c]. \<exists>msg. validateCsvRow r = Inr (Invalid msg)"
    using vb vc by simp
  from no_valid_rows_rejected [OF name rows invalid, of example_env example_world]
  obtain errors where resp: "upload_csv example_env example_world (Some ?f) =
        (example_world, Status400 ''No valid records found in CSV'' (Some errors))"
      and r: "map e_row errors = [?b, ?c]"
      and e: "\<forall>e \<in> set errors. validateCsvRow (e_row e) = Inr (Invalid (e_error e))"
    by (elim exE conjE)
  from r obtain eb ec where errors: "errors = [eb, ec]" "e_row eb = ?b" "e_row ec = ?c"
    by auto
  with e vb vc have "e_error eb = ''Missing required fields: Name and Email''"
      "e_error ec = ''Invalid email format: not-an-email''"
    by simp_all
  with errors have "map e_error errors = [''Missing required fields: Name and Email'',
      ''Invalid email format: not-an-email'']"
    by simp
  with resp r show ?thesis
    by (intro exI conjI)
qed

end
